theory Spec2Isabelle
  imports Complex_Main "HOL-Library.AList" "HOL-Library.Sublist"
begin

section \<open>Values, errors, commands\<close>

text \<open>
  The controller is \<^verbatim>\<open>holodeck/environments.py\<close>, class \<^verbatim>\<open>HolodeckEnvironment\<close>.
  Python values that reach a dynamic type test (\<^verbatim>\<open>isinstance(x, int)\<close>) are kept as
  \<open>pyval\<close>; numeric buffers (numpy arrays, locations, actions) are lists of reals.
  Python's \<^verbatim>\<open>bool\<close> is a subclass of \<^verbatim>\<open>int\<close>, so \<open>PyBool\<close> passes the integer test.
\<close>

datatype pyval = PyInt int | PyBool bool | PyFloat real | PyStr string | PyNone

type_synonym buffer = "real list"

text \<open>
  A Python number handed to a world command: an integer or a finite float is
  \<open>Finite\<close>, the other floats are the two infinities and NaN. \<open>float_less\<close> is
  Python's \<^verbatim>\<open><\<close> on them: every comparison with NaN is false.
\<close>

datatype pyfloat = Finite real | PosInf | NegInf | NaN

fun float_less :: "pyfloat \<Rightarrow> pyfloat \<Rightarrow> bool" where
  "float_less NaN y = False"
| "float_less x NaN = False"
| "float_less (Finite x) (Finite y) = (x < y)"
| "float_less (Finite x) PosInf = True"
| "float_less (Finite x) NegInf = False"
| "float_less PosInf y = False"
| "float_less NegInf NegInf = False"
| "float_less NegInf y = True"

datatype error =
    HolodeckException string
  | KeyError string
  | IndexError
  | AttributeError string

text \<open>
  The command classes of \<^verbatim>\<open>holodeck.command\<close>, one constructor per class the
  environment instantiates, with the constructor arguments in source order. The
  last two are modelled from the spec: the positional and the kinematic override an
  agent enqueues on \<^verbatim>\<open>teleport\<close> and \<^verbatim>\<open>set_state\<close>.
\<close>

datatype command =
    SpawnAgentCommand buffer string string
  | RGBCameraRateCommand string pyval
  | DebugDrawCommand int buffer buffer buffer real
  | CustomCommand string "pyfloat list" "string list"
  | TeleportCameraCommand buffer buffer
  | RenderViewportCommand bool
  | RenderQualityCommand int
  | SetSensorEnabledCommand string string bool
  | TeleportOverride string "buffer option" "buffer option"
  | StateOverride string buffer buffer buffer buffer

text \<open>What \<^verbatim>\<open>print\<close> wrote: the message, with its variable part kept as a value.\<close>

datatype printed = TicksInvalid pyval | NoSuchAgent string | AgentNameDuplicate

section \<open>Shared memory, arrays and the environment object\<close>

text \<open>
  A shared-memory block holding a sensor's values is named by the agent and the
  sensor it belongs to. A numpy array the controller hands out is either a view of
  such a block (the engine rewrites it in place) or an array the controller owns,
  made by \<^verbatim>\<open>np.copy\<close> and addressed by its index in the heap.
\<close>

type_synonym block = "string \<times> string"

datatype array = Shared block | Owned nat

record shared =
  reset_flag :: bool
  command_buffer :: "command list"
  action_buffers :: "string \<Rightarrow> buffer"
  sensor_mem :: "block \<Rightarrow> buffer"

record agent =
  agent_name :: string
  agent_type :: string
  has_camera :: bool
  ticks_per_capture :: pyval
  control_scheme :: int
  agent_state_dict :: "(string \<times> block) list"

record agent_definition =
  def_name :: string
  def_type :: string
  def_sensors :: "string list"
  def_has_camera :: bool
  def_ticks_per_capture :: pyval

text \<open>
  Dictionaries are association lists in insertion order (the order Python iterates
  them in). \<open>sensor_map\<close> is \<open>None\<close> while the attribute \<^verbatim>\<open>_sensor_map\<close> has never
  been assigned. \<open>main_agent\<close> is \<^verbatim>\<open>self._agent\<close>, kept as the name of the agent object
  it aliases. \<open>handoffs\<close> is a ghost trace: the shared memory as it stood at each
  \<^verbatim>\<open>release\<close>, which is what the engine is handed for that tick.
\<close>

record env =
  pre_start_steps :: int
  copy_state :: bool
  shm :: shared
  command_queue :: "command list"
  agents :: "(string \<times> agent) list"
  state_dict :: "(string \<times> (string \<times> block) list) list"
  num_agents :: nat
  main_agent :: "string option"
  default_single :: bool
  initial_reset :: bool
  sensor_map :: "(string \<times> string list) list option"
  heap :: "buffer list"
  stdout :: "printed list"
  handoffs :: "shared list"

text \<open>What a call returns: \<^verbatim>\<open>None\<close>, the full state mapping, or the 4-tuple
  \<^verbatim>\<open>(state, reward, terminal, None)\<close>.\<close>

datatype retval =
    RNone
  | RFull "(string \<times> (string \<times> array) list) list"
  | RSingle "(string \<times> array) list" "real option" "bool option"

section \<open>Exceptions and sequencing\<close>

type_synonym 'a result = "(error + 'a) \<times> env"

definition ok :: "'a \<Rightarrow> env \<Rightarrow> 'a result" where
  "ok v e = (Inr v, e)"

definition raise :: "error \<Rightarrow> env \<Rightarrow> 'a result" where
  "raise x e = (Inl x, e)"

definition andthen :: "'a result \<Rightarrow> ('a \<Rightarrow> env \<Rightarrow> 'b result) \<Rightarrow> 'b result" where
  "andthen m f = (case m of (Inl x, e) \<Rightarrow> (Inl x, e) | (Inr v, e) \<Rightarrow> f v e)"

definition print :: "printed \<Rightarrow> env \<Rightarrow> env" where
  "print p e = e\<lparr>stdout := stdout e @ [p]\<rparr>"

section \<open>Collaborators outside the file\<close>

text \<open>
  Modelled from the spec: the Command Queue (\<^verbatim>\<open>CommandCenter\<close>, module
  \<^verbatim>\<open>holodeck.command\<close>). \<open>enqueue\<close> appends to an ordered buffer; \<open>flush\<close>
  (\<^verbatim>\<open>handle_buffer\<close>) hands the whole buffer, in order, to the engine and then
  clears it; \<open>clear\<close> discards pending commands without sending them.
\<close>

definition enqueue_command :: "command \<Rightarrow> env \<Rightarrow> env" where
  "enqueue_command c e = e\<lparr>command_queue := command_queue e @ [c]\<rparr>"

definition command_center_clear :: "env \<Rightarrow> env" where
  "command_center_clear e = e\<lparr>command_queue := []\<rparr>"

definition handle_buffer :: "env \<Rightarrow> env" where
  "handle_buffer e =
     e\<lparr>shm := (shm e)\<lparr>command_buffer := command_queue e\<rparr>, command_queue := []\<rparr>"

text \<open>
  Modelled from the spec: the Handshake Primitive (\<^verbatim>\<open>HolodeckClient\<close>). \<open>release\<close>
  hands the shared memory to the engine, \<open>acquire\<close> returns once the engine has
  written the next snapshot. The engine is a parameter \<open>eng\<close>: it may rewrite any
  shared block and nothing else. A handshake that times out is fatal and is not
  modelled: the engine always answers.
\<close>

definition client_release :: "env \<Rightarrow> env" where
  "client_release e = e\<lparr>handoffs := handoffs e @ [shm e]\<rparr>"

definition client_acquire :: "(shared \<Rightarrow> shared) \<Rightarrow> env \<Rightarrow> env" where
  "client_acquire eng e = e\<lparr>shm := eng (shm e)\<rparr>"

text \<open>
  Modelled from the spec: the agent objects (module \<^verbatim>\<open>holodeck.agents\<close>). An agent
  is a named, typed entity with a mapping from sensor identifiers to
  shared-memory-backed buffers. \<open>act\<close> records the action for that agent, to be
  applied at the next flush (the last write wins); \<open>teleport\<close> and \<open>set_state\<close>
  enqueue a positional or kinematic override; the capture rate and the control
  scheme are attributes of the agent object.
\<close>

definition build_agent :: "agent_definition \<Rightarrow> agent" where
  "build_agent d =
     \<lparr>agent_name = def_name d, agent_type = def_type d,
      has_camera = def_has_camera d, ticks_per_capture = def_ticks_per_capture d,
      control_scheme = 0,
      agent_state_dict = map (\<lambda>s. (s, (def_name d, s))) (def_sensors d)\<rparr>"

definition agent_act :: "string \<Rightarrow> buffer \<Rightarrow> env \<Rightarrow> env" where
  "agent_act n action e =
     e\<lparr>shm := (shm e)\<lparr>action_buffers := (action_buffers (shm e))(n := action)\<rparr>\<rparr>"

definition agent_teleport :: "string \<Rightarrow> buffer option \<Rightarrow> buffer option \<Rightarrow> env \<Rightarrow> env" where
  "agent_teleport n location rotation e = enqueue_command (TeleportOverride n location rotation) e"

definition agent_set_state :: "string \<Rightarrow> buffer \<Rightarrow> buffer \<Rightarrow> buffer \<Rightarrow> buffer \<Rightarrow> env \<Rightarrow> env" where
  "agent_set_state n location rotation velocity angular_velocity e =
     enqueue_command (StateOverride n location rotation velocity angular_velocity) e"

definition agent_set_ticks_per_capture :: "string \<Rightarrow> pyval \<Rightarrow> env \<Rightarrow> env" where
  "agent_set_ticks_per_capture n v e =
     e\<lparr>agents := AList.map_entry n (\<lambda>a. a\<lparr>ticks_per_capture := v\<rparr>) (agents e)\<rparr>"

definition agent_set_control_scheme :: "string \<Rightarrow> int \<Rightarrow> env \<Rightarrow> env" where
  "agent_set_control_scheme n v e =
     e\<lparr>agents := AList.map_entry n (\<lambda>a. a\<lparr>control_scheme := v\<rparr>) (agents e)\<rparr>"


section \<open>State aggregation\<close>

fun read_array :: "env \<Rightarrow> array \<Rightarrow> buffer" where
  "read_array e (Shared b) = sensor_mem (shm e) b"
| "read_array e (Owned i) = (if i < length (heap e) then heap e ! i else [])"

text \<open>\<^verbatim>\<open>np.copy(v)\<close> of a shared view: a fresh owned array holding what the block holds now.\<close>

definition np_copy :: "block \<Rightarrow> env \<Rightarrow> array \<times> env" where
  "np_copy b e = (Owned (length (heap e)), e\<lparr>heap := heap e @ [sensor_mem (shm e) b]\<rparr>)"

text \<open>
  \<^verbatim>\<open>_create_copy\<close> recurses on the dynamic type of each value; the state dictionary
  has exactly two levels, so the model has one function per level:
  \<open>create_copy_sensors\<close> for a dictionary of arrays (every value goes through
  \<^verbatim>\<open>np.copy\<close>) and \<open>create_copy\<close> for the dictionary of those dictionaries.
  \<open>views\<close> is the dictionary itself, handed out by reference.
\<close>

fun create_copy_sensors :: "(string \<times> block) list \<Rightarrow> env \<Rightarrow> (string \<times> array) list \<times> env" where
  "create_copy_sensors [] e = ([], e)"
| "create_copy_sensors ((k, v) # kvs) e =
     (case np_copy v e of (v', e1) \<Rightarrow>
        (case create_copy_sensors kvs e1 of (cp, e2) \<Rightarrow> ((k, v') # cp, e2)))"

fun create_copy ::
  "(string \<times> (string \<times> block) list) list \<Rightarrow> env \<Rightarrow> (string \<times> (string \<times> array) list) list \<times> env" where
  "create_copy [] e = ([], e)"
| "create_copy ((k, v) # kvs) e =
     (case create_copy_sensors v e of (v', e1) \<Rightarrow>
        (case create_copy kvs e1 of (cp, e2) \<Rightarrow> ((k, v') # cp, e2)))"

definition views :: "(string \<times> block) list \<Rightarrow> (string \<times> array) list" where
  "views sd = map (\<lambda>(s, b). (s, Shared b)) sd"

definition get_full_state :: "env \<Rightarrow> retval result" where
  "get_full_state e =
     (if copy_state e
      then (case create_copy (state_dict e) e of (cp, e') \<Rightarrow> ok (RFull cp) e')
      else ok (RFull (map (\<lambda>(n, sd). (n, views sd)) (state_dict e))) e)"

text \<open>\<^verbatim>\<open>"Task" in sensor\<close>: the substring test on the sensor's identifier.\<close>

fun starts_with :: "string \<Rightarrow> string \<Rightarrow> bool" where
  "starts_with [] s = True"
| "starts_with (p # ps) [] = False"
| "starts_with (p # ps) (c # cs) = (p = c \<and> starts_with ps cs)"

fun contains :: "string \<Rightarrow> string \<Rightarrow> bool" where
  "contains p [] = (p = [])"
| "contains p (c # cs) = (starts_with p (c # cs) \<or> contains p cs)"

text \<open>
  The loop of \<^verbatim>\<open>_get_single_state\<close> over the sensors of the main agent, carrying
  \<open>(reward, terminal)\<close>. Indexing a buffer outside its length raises \<open>IndexError\<close>.
\<close>

fun task_scan ::
  "env \<Rightarrow> (string \<times> block) list \<Rightarrow> real option \<times> bool option \<Rightarrow> error + (real option \<times> bool option)" where
  "task_scan e [] acc = Inr acc"
| "task_scan e ((sensor, b) # rest) acc =
     (if contains ''Task'' sensor
      then (if length (sensor_mem (shm e) b) < 1 then Inl IndexError
            else if length (sensor_mem (shm e) b) < 2 then Inl IndexError
            else task_scan e rest
                   (Some (sensor_mem (shm e) b ! 0), Some (sensor_mem (shm e) b ! 1 = 1)))
      else task_scan e rest acc)"

definition get_single_state :: "env \<Rightarrow> retval result" where
  "get_single_state e =
     (case main_agent e of
        None \<Rightarrow> raise (AttributeError ''name'') e
      | Some n \<Rightarrow>
          (case map_of (state_dict e) n of
             None \<Rightarrow> raise (KeyError n) e
           | Some sd \<Rightarrow>
               (case task_scan e sd (None, None) of
                  Inl x \<Rightarrow> raise x e
                | Inr (reward, terminal) \<Rightarrow>
                    (if copy_state e
                     then (case create_copy_sensors sd e of
                             (cp, e') \<Rightarrow> ok (RSingle cp reward terminal) e')
                     else ok (RSingle (views sd) reward terminal) e))))"

section \<open>The tick orchestrator\<close>

definition tick :: "(shared \<Rightarrow> shared) \<Rightarrow> env \<Rightarrow> retval result" where
  "tick eng e =
     (if \<not> initial_reset e
      then raise (HolodeckException ''You must call .reset() before .tick()'') e
      else get_full_state (client_acquire eng (client_release (handle_buffer e))))"

definition step :: "(shared \<Rightarrow> shared) \<Rightarrow> buffer \<Rightarrow> env \<Rightarrow> retval result" where
  "step eng action e =
     (if \<not> initial_reset e
      then raise (HolodeckException ''You must call .reset() before .step()'') e
      else (case main_agent e of
              Some n \<Rightarrow>
                get_single_state
                  (client_acquire eng (client_release (handle_buffer (agent_act n action e))))
            | None \<Rightarrow>
                get_full_state (client_acquire eng (client_release (handle_buffer e)))))"

definition teleport ::
  "(shared \<Rightarrow> shared) \<Rightarrow> string \<Rightarrow> buffer option \<Rightarrow> buffer option \<Rightarrow> env \<Rightarrow> retval result" where
  "teleport eng name location rotation e =
     (case map_of (agents e) name of
        None \<Rightarrow> raise (KeyError name) e
      | Some a \<Rightarrow>
          andthen (tick eng (agent_teleport (agent_name a) location rotation e))
            (\<lambda>_. ok RNone))"

definition set_state ::
  "(shared \<Rightarrow> shared) \<Rightarrow> string \<Rightarrow> buffer \<Rightarrow> buffer \<Rightarrow> buffer \<Rightarrow> buffer \<Rightarrow> env \<Rightarrow> retval result" where
  "set_state eng name location rotation velocity angular_velocity e =
     (case map_of (agents e) name of
        None \<Rightarrow> raise (KeyError name) e
      | Some a \<Rightarrow>
          tick eng (agent_set_state (agent_name a) location rotation velocity angular_velocity e))"

definition act :: "string \<Rightarrow> buffer \<Rightarrow> env \<Rightarrow> retval result" where
  "act name action e =
     (case map_of (agents e) name of
        None \<Rightarrow> raise (KeyError name) e
      | Some a \<Rightarrow> ok RNone (agent_act (agent_name a) action e))"

section \<open>Registering agents\<close>

text \<open>
  \<^verbatim>\<open>_add_agents\<close>, on the list of definitions (a single definition is wrapped in a
  list by its caller). A dictionary assignment \<^verbatim>\<open>d[k] = v\<close> is \<open>AList.update\<close>: it
  replaces the entry in place or appends a new one.
\<close>

fun add_agents :: "agent_definition list \<Rightarrow> env \<Rightarrow> env" where
  "add_agents [] e = e"
| "add_agents (d # ds) e =
     add_agents ds
       (if map_of (agents e) (def_name d) \<noteq> None
        then print AgentNameDuplicate e
        else e\<lparr>agents := AList.update (def_name d) (build_agent d) (agents e),
               state_dict :=
                 AList.update (def_name d) (agent_state_dict (build_agent d)) (state_dict e)\<rparr>)"

definition spawn_agent :: "agent_definition \<Rightarrow> buffer \<Rightarrow> env \<Rightarrow> retval result" where
  "spawn_agent d location e =
     (let e1 = add_agents [d] e;
          e2 = enqueue_command (SpawnAgentCommand location (def_name d) (def_type d)) e1
      in ok RNone (if main_agent e2 = None then e2\<lparr>main_agent := Some (def_name d)\<rparr> else e2))"

section \<open>Setters\<close>

fun as_int :: "pyval \<Rightarrow> int option" where
  "as_int (PyInt i) = Some i"
| "as_int (PyBool b) = Some (if b then 1 else 0)"
| "as_int (PyFloat x) = None"
| "as_int (PyStr s) = None"
| "as_int PyNone = None"

text \<open>\<^verbatim>\<open>not isinstance(v, int) or v < 1\<close>\<close>

definition invalid_rate :: "pyval \<Rightarrow> bool" where
  "invalid_rate v = (case as_int v of None \<Rightarrow> True | Some i \<Rightarrow> i < 1)"

definition set_ticks_per_capture :: "string \<Rightarrow> pyval \<Rightarrow> env \<Rightarrow> retval result" where
  "set_ticks_per_capture name v e =
     (if invalid_rate v then ok RNone (print (TicksInvalid v) e)
      else if map_of (agents e) name = None then ok RNone (print (NoSuchAgent name) e)
      else ok RNone
             (enqueue_command (RGBCameraRateCommand name v)
                (agent_set_ticks_per_capture name v e)))"

definition send_world_command :: "string \<Rightarrow> pyfloat list \<Rightarrow> string list \<Rightarrow> env \<Rightarrow> retval result" where
  "send_world_command name num_params string_params e =
     ok RNone (enqueue_command (CustomCommand name num_params string_params) e)"

definition set_fog_density :: "pyfloat \<Rightarrow> env \<Rightarrow> retval result" where
  "set_fog_density density e =
     (if float_less density (Finite 0) \<or> float_less (Finite 1) density
      then raise (HolodeckException ''Fog density should be between 0 and 1'') e
      else send_world_command ''SetFogDensity'' [density] [] e)"

definition set_day_time :: "int \<Rightarrow> env \<Rightarrow> retval result" where
  "set_day_time hour e = send_world_command ''SetHour'' [Finite (of_int (hour mod 24))] [] e"

definition start_day_cycle :: "int \<Rightarrow> env \<Rightarrow> retval result" where
  "start_day_cycle day_length e =
     (if day_length \<le> 0
      then raise (HolodeckException ''The given day length should be between above 0!'') e
      else send_world_command ''SetDayCycle'' [Finite 1, Finite (of_int day_length)] [] e)"

definition stop_day_cycle :: "env \<Rightarrow> retval result" where
  "stop_day_cycle e = send_world_command ''SetDayCycle'' [Finite 0, Finite (- 1)] [] e"

text \<open>\<^verbatim>\<open>str.lower\<close> on the ASCII letters.\<close>

definition lower_char :: "char \<Rightarrow> char" where
  "lower_char c =
     (if 65 \<le> (of_char c :: nat) \<and> (of_char c :: nat) \<le> 90
      then char_of ((of_char c :: nat) + 32) else c)"

definition set_weather :: "string \<Rightarrow> env \<Rightarrow> retval result" where
  "set_weather weather_type e =
     (if \<not> (map lower_char weather_type \<in> set [''rain'', ''cloudy''])
      then raise (HolodeckException (''Invalid weather type '' @ weather_type)) e
      else send_world_command ''SetWeather'' [] [weather_type] e)"

definition draw_color :: "buffer option \<Rightarrow> buffer" where
  "draw_color color = (case color of None \<Rightarrow> [255, 0, 0] | Some c \<Rightarrow> c)"

definition draw_line :: "buffer \<Rightarrow> buffer \<Rightarrow> buffer option \<Rightarrow> real \<Rightarrow> env \<Rightarrow> retval result" where
  "draw_line start end' color thickness e =
     ok RNone (enqueue_command (DebugDrawCommand 0 start end' (draw_color color) thickness) e)"

definition draw_arrow :: "buffer \<Rightarrow> buffer \<Rightarrow> buffer option \<Rightarrow> real \<Rightarrow> env \<Rightarrow> retval result" where
  "draw_arrow start end' color thickness e =
     ok RNone (enqueue_command (DebugDrawCommand 1 start end' (draw_color color) thickness) e)"

definition draw_box :: "buffer \<Rightarrow> buffer \<Rightarrow> buffer option \<Rightarrow> real \<Rightarrow> env \<Rightarrow> retval result" where
  "draw_box center extent color thickness e =
     ok RNone (enqueue_command (DebugDrawCommand 2 center extent (draw_color color) thickness) e)"

definition draw_point :: "buffer \<Rightarrow> buffer option \<Rightarrow> real \<Rightarrow> env \<Rightarrow> retval result" where
  "draw_point loc color thickness e =
     ok RNone (enqueue_command (DebugDrawCommand 3 loc [0, 0, 0] (draw_color color) thickness) e)"

definition teleport_camera :: "buffer \<Rightarrow> buffer \<Rightarrow> env \<Rightarrow> retval result" where
  "teleport_camera location rotation e =
     ok RNone (enqueue_command (TeleportCameraCommand location rotation) e)"

definition should_render_viewport :: "bool \<Rightarrow> env \<Rightarrow> retval result" where
  "should_render_viewport render_viewport e =
     ok RNone (enqueue_command (RenderViewportCommand render_viewport) e)"

definition set_render_quality :: "int \<Rightarrow> env \<Rightarrow> retval result" where
  "set_render_quality render_quality e =
     ok RNone (enqueue_command (RenderQualityCommand render_quality) e)"

definition set_control_scheme :: "string \<Rightarrow> int \<Rightarrow> env \<Rightarrow> retval result" where
  "set_control_scheme name scheme e =
     (if map_of (agents e) name = None then ok RNone (print (NoSuchAgent name) e)
      else ok RNone (agent_set_control_scheme name scheme e))"

text \<open>
  \<^verbatim>\<open>set_sensor_enabled\<close> reads the attribute \<^verbatim>\<open>self._sensor_map\<close>; reading an
  attribute that was never assigned raises \<open>AttributeError\<close>.
\<close>

definition set_sensor_enabled :: "string \<Rightarrow> string \<Rightarrow> bool \<Rightarrow> env \<Rightarrow> retval result" where
  "set_sensor_enabled name sensor_name enabled e =
     (case sensor_map e of
        None \<Rightarrow> raise (AttributeError ''_sensor_map'') e
      | Some m \<Rightarrow>
          (if map_of m name = None then ok RNone (print (NoSuchAgent name) e)
           else ok RNone (enqueue_command (SetSensorEnabledCommand name sensor_name enabled) e)))"

section \<open>Reset\<close>

text \<open>\<^verbatim>\<open>for _ in range(n): self.tick()\<close>\<close>

fun tick_times :: "(shared \<Rightarrow> shared) \<Rightarrow> nat \<Rightarrow> env \<Rightarrow> retval result" where
  "tick_times eng 0 e = ok RNone e"
| "tick_times eng (Suc n) e = andthen (tick eng e) (\<lambda>_. tick_times eng n)"

text \<open>The loop over the agent names that re-applies the capture rate of every
  agent with a camera.\<close>

fun reapply_capture_rates :: "string list \<Rightarrow> env \<Rightarrow> retval result" where
  "reapply_capture_rates [] e = ok RNone e"
| "reapply_capture_rates (n # ns) e =
     (case map_of (agents e) n of
        None \<Rightarrow> raise (KeyError n) e
      | Some a \<Rightarrow>
          (if has_camera a
           then andthen (set_ticks_per_capture n (ticks_per_capture a) e)
                  (\<lambda>_. reapply_capture_rates ns)
           else reapply_capture_rates ns e))"

definition default_state_fn :: "env \<Rightarrow> retval result" where
  "default_state_fn e = (if default_single e then get_single_state e else get_full_state e)"

definition reset :: "(shared \<Rightarrow> shared) \<Rightarrow> env \<Rightarrow> retval result" where
  "reset eng e =
     (let e1 = e\<lparr>initial_reset := True\<rparr>;
          e2 = e1\<lparr>shm := (shm e1)\<lparr>reset_flag := True\<rparr>\<rparr>;
          e3 = command_center_clear e2
      in andthen (tick_times eng (nat (pre_start_steps e3 + 1)) e3)
           (\<lambda>_ e4. andthen (reapply_capture_rates (map fst (agents e4)) e4)
              (\<lambda>_. default_state_fn)))"

section \<open>Construction\<close>

text \<open>
  \<^verbatim>\<open>__init__\<close> from "Initialize Client" on (starting the engine process is outside
  the model). \<open>mem\<close> is the shared memory as the client finds it.
\<close>

definition init ::
  "(shared \<Rightarrow> shared) \<Rightarrow> agent_definition list \<Rightarrow> int \<Rightarrow> bool \<Rightarrow> shared \<Rightarrow> env" where
  "init eng agent_definitions pre_start copy mem =
     (let e0 = \<lparr>pre_start_steps = pre_start, copy_state = copy,
                shm = mem\<lparr>reset_flag := False\<rparr>, command_queue = [],
                agents = [], state_dict = [], num_agents = 0, main_agent = None,
                default_single = False, initial_reset = False, sensor_map = None,
                heap = [], stdout = [], handoffs = []\<rparr>;
          e1 = add_agents agent_definitions e0;
          e2 = e1\<lparr>num_agents := length (agents e1)\<rparr>;
          e3 = e2\<lparr>main_agent :=
                   (if num_agents e2 > 0 then Some (def_name (hd agent_definitions)) else None)\<rparr>;
          e4 = e3\<lparr>default_single := (num_agents e3 = 1)\<rparr>
      in (client_acquire eng e4)\<lparr>initial_reset := False\<rparr>)"

section \<open>Calls and runs\<close>

text \<open>The public operations as data, so that a history of calls can be replayed.
  A caller may catch an exception and go on: the object stays as the raise left it.\<close>

datatype call =
    Reset
  | Step buffer
  | Tick
  | Act string buffer
  | Teleport string "buffer option" "buffer option"
  | SetState string buffer buffer buffer buffer
  | SpawnAgent agent_definition buffer
  | SetTicksPerCapture string pyval
  | DrawLine buffer buffer "buffer option" real
  | DrawArrow buffer buffer "buffer option" real
  | DrawBox buffer buffer "buffer option" real
  | DrawPoint buffer "buffer option" real
  | SetFogDensity pyfloat
  | SetDayTime int
  | StartDayCycle int
  | StopDayCycle
  | SetWeather string
  | TeleportCamera buffer buffer
  | ShouldRenderViewport bool
  | SetRenderQuality int
  | SetControlScheme string int
  | SetSensorEnabled string string bool
  | SendWorldCommand string "pyfloat list" "string list"

fun exec :: "(shared \<Rightarrow> shared) \<Rightarrow> call \<Rightarrow> env \<Rightarrow> retval result" where
  "exec eng Reset e = reset eng e"
| "exec eng (Step a) e = step eng a e"
| "exec eng Tick e = tick eng e"
| "exec eng (Act n a) e = act n a e"
| "exec eng (Teleport n l r) e = teleport eng n l r e"
| "exec eng (SetState n l r v w) e = set_state eng n l r v w e"
| "exec eng (SpawnAgent d l) e = spawn_agent d l e"
| "exec eng (SetTicksPerCapture n v) e = set_ticks_per_capture n v e"
| "exec eng (DrawLine s t c w) e = draw_line s t c w e"
| "exec eng (DrawArrow s t c w) e = draw_arrow s t c w e"
| "exec eng (DrawBox s t c w) e = draw_box s t c w e"
| "exec eng (DrawPoint s c w) e = draw_point s c w e"
| "exec eng (SetFogDensity d) e = set_fog_density d e"
| "exec eng (SetDayTime h) e = set_day_time h e"
| "exec eng (StartDayCycle d) e = start_day_cycle d e"
| "exec eng StopDayCycle e = stop_day_cycle e"
| "exec eng (SetWeather w) e = set_weather w e"
| "exec eng (TeleportCamera l r) e = teleport_camera l r e"
| "exec eng (ShouldRenderViewport b) e = should_render_viewport b e"
| "exec eng (SetRenderQuality q) e = set_render_quality q e"
| "exec eng (SetControlScheme n s) e = set_control_scheme n s e"
| "exec eng (SetSensorEnabled n s b) e = set_sensor_enabled n s b e"
| "exec eng (SendWorldCommand n ps ss) e = send_world_command n ps ss e"

fun run :: "(shared \<Rightarrow> shared) \<Rightarrow> call list \<Rightarrow> env \<Rightarrow> env" where
  "run eng [] e = e"
| "run eng (c # cs) e = run eng cs (snd (exec eng c e))"

section \<open>Descriptions used in the statements\<close>

text \<open>
  The definitions of this section are not part of the program: they name what the
  program is shown to compute. \<open>handshake\<close> is the flush, release and acquire that
  \<^verbatim>\<open>tick\<close> and \<^verbatim>\<open>step\<close> share; \<open>owned_from\<close> and \<open>owned_full\<close> are the
  dictionaries of fresh arrays a copy returns, \<open>block_values\<close> and \<open>full_values\<close>
  what those arrays hold; \<open>settle\<close> is a run of ticks on an initialized
  environment, \<open>settled\<close> the environment after the ticks of a reset and
  \<open>reapplied\<close> the one after its re-application of the capture rates;
  \<open>reapplied_commands\<close> and \<open>reapplied_warnings\<close> are what that re-application
  enqueues and prints; \<open>keeps\<close> collects what no call changes.
  \<open>registered\<close> says that every agent has its state dictionary, that the main
  agent is a registered agent, and that a single-agent environment has a main agent;
  \<open>same_registry\<close> relates two environments with the same names, state
  dictionary and main agent.

  \<open>task_sensors\<close> and \<open>spec_reward_terminal\<close> are written from the words of the
  specification: the sensors whose identifier contains the Task marker, and the
  reward and terminal read from the last of them.

  \<open>observe\<close> reads a returned structure through the memory of an environment,
  array by array; \<open>live\<close> is what the shared memory shows for the same shape;
  \<open>arrays_of\<close> lists the arrays of a returned structure; \<open>private_copy\<close> says
  that a returned structure consists of arrays allocated by the call and holds what
  the shared memory holds at the return.
\<close>

fun owned_from :: "nat \<Rightarrow> string list \<Rightarrow> (string \<times> array) list" where
  "owned_from n [] = []"
| "owned_from n (k # ks) = (k, Owned n) # owned_from (Suc n) ks"

fun owned_full :: "nat \<Rightarrow> (string \<times> (string \<times> block) list) list \<Rightarrow> (string \<times> (string \<times> array) list) list" where
  "owned_full n [] = []"
| "owned_full n ((k, sd) # m) = (k, owned_from n (map fst sd)) # owned_full (n + length sd) m"

definition block_values :: "shared \<Rightarrow> (string \<times> block) list \<Rightarrow> buffer list" where
  "block_values s sd = map (\<lambda>kv. sensor_mem s (snd kv)) sd"

definition full_values :: "shared \<Rightarrow> (string \<times> (string \<times> block) list) list \<Rightarrow> buffer list" where
  "full_values s m = concat (map (\<lambda>p. block_values s (snd p)) m)"

definition handshake :: "(shared \<Rightarrow> shared) \<Rightarrow> env \<Rightarrow> env" where
  "handshake eng e = client_acquire eng (client_release (handle_buffer e))"

fun settle :: "(shared \<Rightarrow> shared) \<Rightarrow> nat \<Rightarrow> env \<Rightarrow> env" where
  "settle eng 0 e = e"
| "settle eng (Suc n) e = settle eng n (snd (get_full_state (handshake eng e)))"

definition reapplied_commands :: "(string \<times> agent) list \<Rightarrow> string list \<Rightarrow> command list" where
  "reapplied_commands ags ns =
     concat (map (\<lambda>n. case map_of ags n of
                          None \<Rightarrow> []
                        | Some a \<Rightarrow>
                            if has_camera a \<and> \<not> invalid_rate (ticks_per_capture a)
                            then [RGBCameraRateCommand n (ticks_per_capture a)] else []) ns)"

definition reapplied_warnings :: "(string \<times> agent) list \<Rightarrow> string list \<Rightarrow> printed list" where
  "reapplied_warnings ags ns =
     concat (map (\<lambda>n. case map_of ags n of
                          None \<Rightarrow> []
                        | Some a \<Rightarrow>
                            if has_camera a \<and> invalid_rate (ticks_per_capture a)
                            then [TicksInvalid (ticks_per_capture a)] else []) ns)"

definition settled :: "(shared \<Rightarrow> shared) \<Rightarrow> env \<Rightarrow> env" where
  "settled eng e =
     settle eng (nat (pre_start_steps e + 1))
       (e\<lparr>initial_reset := True, shm := (shm e)\<lparr>reset_flag := True\<rparr>, command_queue := []\<rparr>)"

definition reapplied :: "(shared \<Rightarrow> shared) \<Rightarrow> env \<Rightarrow> env" where
  "reapplied eng e =
     (settled eng e)\<lparr>command_queue := reapplied_commands (agents e) (map fst (agents e)),
        stdout := stdout e @ reapplied_warnings (agents e) (map fst (agents e))\<rparr>"

definition keeps :: "env \<Rightarrow> env \<Rightarrow> bool" where
  "keeps e e' \<longleftrightarrow>
     sensor_map e' = sensor_map e \<and> default_single e' = default_single e \<and>
     copy_state e' = copy_state e \<and> pre_start_steps e' = pre_start_steps e \<and>
     prefix (heap e) (heap e') \<and>
     (distinct (map fst (agents e)) \<longrightarrow> distinct (map fst (agents e')))"

definition task_sensors :: "(string \<times> block) list \<Rightarrow> (string \<times> block) list" where
  "task_sensors sd = filter (\<lambda>p. contains ''Task'' (fst p)) sd"

definition spec_reward_terminal :: "env \<Rightarrow> (string \<times> block) list \<Rightarrow> real option \<times> bool option" where
  "spec_reward_terminal e sd =
     (case task_sensors sd of
        [] \<Rightarrow> (None, None)
      | t # ts \<Rightarrow>
          (Some (sensor_mem (shm e) (snd (last (t # ts))) ! 0),
           Some (sensor_mem (shm e) (snd (last (t # ts))) ! 1 = 1)))"

datatype snapshot =
    SNone
  | SFull "(string \<times> (string \<times> buffer) list) list"
  | SSingle "(string \<times> buffer) list" "real option" "bool option"

definition observe_state :: "env \<Rightarrow> (string \<times> array) list \<Rightarrow> (string \<times> buffer) list" where
  "observe_state e st = map (\<lambda>p. (fst p, read_array e (snd p))) st"

fun observe :: "env \<Rightarrow> retval \<Rightarrow> snapshot" where
  "observe e RNone = SNone"
| "observe e (RFull m) = SFull (map (\<lambda>q. (fst q, observe_state e (snd q))) m)"
| "observe e (RSingle st r t) = SSingle (observe_state e st) r t"

definition shared_state :: "shared \<Rightarrow> (string \<times> block) list \<Rightarrow> (string \<times> buffer) list" where
  "shared_state sh sd = map (\<lambda>p. (fst p, sensor_mem sh (snd p))) sd"

fun live :: "env \<Rightarrow> retval \<Rightarrow> snapshot" where
  "live e RNone = SNone"
| "live e (RFull m) = SFull (map (\<lambda>q. (fst q, shared_state (shm e) (snd q))) (state_dict e))"
| "live e (RSingle st r t) =
     SSingle (case main_agent e of
                None \<Rightarrow> []
              | Some n \<Rightarrow> (case map_of (state_dict e) n of
                             None \<Rightarrow> []
                           | Some sd \<Rightarrow> shared_state (shm e) sd)) r t"

fun arrays_of :: "retval \<Rightarrow> array list" where
  "arrays_of RNone = []"
| "arrays_of (RFull m) = concat (map (\<lambda>q. map snd (snd q)) m)"
| "arrays_of (RSingle st r t) = map snd st"

definition private_copy :: "env \<Rightarrow> retval \<Rightarrow> env \<Rightarrow> bool" where
  "private_copy h r e1 \<longleftrightarrow>
     (\<forall>x \<in> set (arrays_of r). \<exists>i. x = Owned i \<and> length (heap h) \<le> i \<and> i < length (heap e1)) \<and>
     observe e1 r = live e1 r"

definition registered :: "env \<Rightarrow> bool" where
  "registered e \<longleftrightarrow>
     set (map fst (agents e)) \<subseteq> set (map fst (state_dict e)) \<and>
     (\<forall>n. main_agent e = Some n \<longrightarrow> n \<in> set (map fst (agents e))) \<and>
     (default_single e \<longrightarrow> main_agent e \<noteq> None)"

definition same_registry :: "env \<Rightarrow> env \<Rightarrow> bool" where
  "same_registry e e' \<longleftrightarrow>
     map fst (agents e') = map fst (agents e) \<and> state_dict e' = state_dict e \<and>
     main_agent e' = main_agent e \<and> default_single e' = default_single e"

section \<open>Example inputs\<close>

text \<open>An engine that writes nothing, an engine that adds one to every sensor value,
  a shared memory of two-element blocks, and the definition of an agent with a camera
  and a task sensor; the environment constructed for that agent, the same after
  \<^verbatim>\<open>reset()\<close>, and the same after \<^verbatim>\<open>set_ticks_per_capture("uav0", 5)\<close>; an agent with
  neither camera nor task sensor, its environment in reference mode, and the
  environment of both agents.\<close>

definition idle_engine :: "shared \<Rightarrow> shared" where
  "idle_engine s = s"

definition counting_engine :: "shared \<Rightarrow> shared" where
  "counting_engine s = s\<lparr>sensor_mem := (\<lambda>b. map (\<lambda>x. x + 1) (sensor_mem s b))\<rparr>"

definition zero_memory :: shared where
  "zero_memory =
     \<lparr>reset_flag = False, command_buffer = [], action_buffers = (\<lambda>n. []),
      sensor_mem = (\<lambda>b. [0, 0])\<rparr>"

definition uav :: agent_definition where
  "uav = \<lparr>def_name = ''uav0'', def_type = ''UavAgent'',
          def_sensors = [''RGBCamera'', ''TaskSensor''], def_has_camera = True,
          def_ticks_per_capture = PyInt 1\<rparr>"

definition uav_env :: env where
  "uav_env = init counting_engine [uav] 2 True zero_memory"

definition ready_env :: env where
  "ready_env = snd (reset counting_engine uav_env)"

definition tuned_env :: env where
  "tuned_env = snd (set_ticks_per_capture ''uav0'' (PyInt 5) uav_env)"

definition sphere :: agent_definition where
  "sphere = \<lparr>def_name = ''sphere0'', def_type = ''SphereAgent'',
             def_sensors = [''LocationSensor''], def_has_camera = False,
             def_ticks_per_capture = PyInt 1\<rparr>"

definition sphere_env :: env where
  "sphere_env = init counting_engine [sphere] 0 False zero_memory"

definition pair_env :: env where
  "pair_env = init counting_engine [uav, sphere] 2 True zero_memory"

section \<open>Basic facts\<close>

subsection \<open>Copies, the handshake, one tick\<close>

lemma create_copy_sensors_eq:
  "create_copy_sensors kvs e =
     (owned_from (length (heap e)) (map fst kvs),
      e\<lparr>heap := heap e @ block_values (shm e) kvs\<rparr>)"
  by (induction kvs arbitrary: e) (auto simp: np_copy_def block_values_def)

lemma create_copy_eq:
  "create_copy m e =
     (owned_full (length (heap e)) m, e\<lparr>heap := heap e @ full_values (shm e) m\<rparr>)"
  by (induction m arbitrary: e) (auto simp: create_copy_sensors_eq block_values_def full_values_def)

lemma get_full_state_eq:
  "get_full_state e =
     (if copy_state e
      then (Inr (RFull (owned_full (length (heap e)) (state_dict e))),
            e\<lparr>heap := heap e @ full_values (shm e) (state_dict e)\<rparr>)
      else (Inr (RFull (map (\<lambda>(n, sd). (n, views sd)) (state_dict e))), e))"
  by (simp add: get_full_state_def create_copy_eq ok_def)

lemma handshake_eq:
  "handshake eng e =
     e\<lparr>shm := eng ((shm e)\<lparr>command_buffer := command_queue e\<rparr>),
       command_queue := [],
       handoffs := handoffs e @ [(shm e)\<lparr>command_buffer := command_queue e\<rparr>]\<rparr>"
  by (simp add: handshake_def client_acquire_def client_release_def handle_buffer_def)

lemma tick_eq:
  "tick eng e =
     (if \<not> initial_reset e
      then (Inl (HolodeckException ''You must call .reset() before .tick()''), e)
      else get_full_state (handshake eng e))"
  by (simp add: tick_def handshake_def raise_def)

lemmas op_defs = step_def teleport_def set_state_def act_def spawn_agent_def
  set_ticks_per_capture_def send_world_command_def set_fog_density_def set_day_time_def
  start_day_cycle_def stop_day_cycle_def set_weather_def draw_line_def draw_arrow_def
  draw_box_def draw_point_def teleport_camera_def should_render_viewport_def
  set_render_quality_def set_control_scheme_def set_sensor_enabled_def

lemmas prim_defs = ok_def raise_def andthen_def print_def enqueue_command_def
  command_center_clear_def agent_act_def agent_teleport_def agent_set_state_def
  agent_set_ticks_per_capture_def agent_set_control_scheme_def

lemma get_single_state_snd:
  "snd (get_single_state e) = e \<or>
   (\<exists>sd. snd (get_single_state e) = e\<lparr>heap := heap e @ block_values (shm e) sd\<rparr>)"
  by (auto simp: get_single_state_def create_copy_sensors_eq prim_defs
           split: option.splits sum.splits prod.splits)

lemma get_full_state_snd:
  "snd (get_full_state e) =
     e\<lparr>heap := heap e @ (if copy_state e then full_values (shm e) (state_dict e) else [])\<rparr>"
  by (simp add: get_full_state_eq)

subsection \<open>Runs of ticks\<close>

lemma settle_fields:
  "initial_reset (settle eng n e) = initial_reset e"
  "agents (settle eng n e) = agents e"
  "state_dict (settle eng n e) = state_dict e"
  "copy_state (settle eng n e) = copy_state e"
  "pre_start_steps (settle eng n e) = pre_start_steps e"
  "default_single (settle eng n e) = default_single e"
  "main_agent (settle eng n e) = main_agent e"
  "num_agents (settle eng n e) = num_agents e"
  "sensor_map (settle eng n e) = sensor_map e"
  "stdout (settle eng n e) = stdout e"
  "length (handoffs (settle eng n e)) = length (handoffs e) + n"
  "command_queue (settle eng n e) = (if n = 0 then command_queue e else [])"
  by (induction n arbitrary: e; simp add: get_full_state_snd handshake_eq)+

lemma settle_heap: "prefix (heap e) (heap (settle eng n e))"
proof (induction n arbitrary: e)
  case 0
  show ?case by simp
next
  case (Suc n)
  have "prefix (heap e) (heap (snd (get_full_state (handshake eng e))))"
    by (simp add: get_full_state_snd handshake_eq)
  with Suc[of "snd (get_full_state (handshake eng e))"] show ?case
    by (auto intro: prefix_order.trans)
qed

lemma settle_handoffs: "prefix (handoffs e) (handoffs (settle eng n e))"
proof (induction n arbitrary: e)
  case 0
  show ?case by simp
next
  case (Suc n)
  have "prefix (handoffs e) (handoffs (snd (get_full_state (handshake eng e))))"
    by (simp add: get_full_state_snd handshake_eq)
  with Suc[of "snd (get_full_state (handshake eng e))"] show ?case
    by (auto intro: prefix_order.trans)
qed

lemma tick_times_eq:
  "initial_reset e \<Longrightarrow> tick_times eng n e = (Inr RNone, settle eng n e)"
proof (induction n arbitrary: e)
  case 0
  show ?case by (simp add: ok_def)
next
  case (Suc n)
  have "initial_reset (snd (get_full_state (handshake eng e)))"
    using Suc.prems by (simp add: get_full_state_snd handshake_eq)
  from Suc.IH[OF this] Suc.prems show ?case
    by (cases "copy_state (handshake eng e)")
       (simp_all add: tick_eq andthen_def get_full_state_eq)
qed

subsection \<open>Re-applying the capture rates; reset as a composition\<close>

lemma map_entry_fixed:
  "map_of al k = Some v \<Longrightarrow> f v = v \<Longrightarrow> AList.map_entry k f al = al"
  by (induction al) (auto split: if_splits)

lemma reapply_capture_rates_eq:
  "set ns \<subseteq> fst ` set (agents e) \<Longrightarrow>
   reapply_capture_rates ns e =
     (Inr RNone,
      e\<lparr>command_queue := command_queue e @ reapplied_commands (agents e) ns,
        stdout := stdout e @ reapplied_warnings (agents e) ns\<rparr>)"
proof (induction ns arbitrary: e)
  case Nil
  show ?case by (simp add: ok_def reapplied_commands_def reapplied_warnings_def)
next
  case (Cons n ns)
  from Cons.prems have "n \<in> fst ` set (agents e)" by simp
  then have "map_of (agents e) n \<noteq> None" by (simp add: map_of_eq_None_iff)
  then obtain a where a: "map_of (agents e) n = Some a" by blast
  have same: "agent_set_ticks_per_capture n (ticks_per_capture a) e = e"
    using a by (simp add: agent_set_ticks_per_capture_def map_entry_fixed)
  show ?case
  proof (cases "has_camera a")
    case False
    with a Cons.IH[of e] Cons.prems show ?thesis
      by (simp add: reapplied_commands_def reapplied_warnings_def)
  next
    case cam: True
    show ?thesis
    proof (cases "invalid_rate (ticks_per_capture a)")
      case True
      let ?e1 = "print (TicksInvalid (ticks_per_capture a)) e"
      have "set ns \<subseteq> fst ` set (agents ?e1)"
        using Cons.prems by (simp add: print_def)
      from Cons.IH[OF this] a cam True show ?thesis
        by (simp add: set_ticks_per_capture_def andthen_def ok_def print_def
              reapplied_commands_def reapplied_warnings_def)
    next
      case False
      let ?e1 = "enqueue_command (RGBCameraRateCommand n (ticks_per_capture a)) e"
      have "set ns \<subseteq> fst ` set (agents ?e1)"
        using Cons.prems by (simp add: enqueue_command_def)
      from Cons.IH[OF this] a cam False same show ?thesis
        by (simp add: set_ticks_per_capture_def andthen_def ok_def enqueue_command_def
              reapplied_commands_def reapplied_warnings_def)
    qed
  qed
qed

lemma settled_fields:
  "initial_reset (settled eng e)"
  "agents (settled eng e) = agents e"
  "state_dict (settled eng e) = state_dict e"
  "copy_state (settled eng e) = copy_state e"
  "pre_start_steps (settled eng e) = pre_start_steps e"
  "default_single (settled eng e) = default_single e"
  "main_agent (settled eng e) = main_agent e"
  "num_agents (settled eng e) = num_agents e"
  "sensor_map (settled eng e) = sensor_map e"
  "stdout (settled eng e) = stdout e"
  "length (handoffs (settled eng e)) = length (handoffs e) + nat (pre_start_steps e + 1)"
  "command_queue (settled eng e) = []"
  by (simp_all add: settled_def settle_fields)

lemma reset_eq: "reset eng e = default_state_fn (reapplied eng e)"
proof -
  let ?e3 = "e\<lparr>initial_reset := True, shm := (shm e)\<lparr>reset_flag := True\<rparr>, command_queue := []\<rparr>"
  have t: "tick_times eng (nat (pre_start_steps e + 1)) ?e3 = (Inr RNone, settled eng e)"
    by (simp add: tick_times_eq settled_def)
  have "set (map fst (agents (settled eng e))) \<subseteq> fst ` set (agents (settled eng e))"
    by simp
  from reapply_capture_rates_eq[OF this]
  have r: "reapply_capture_rates (map fst (agents (settled eng e))) (settled eng e) =
             (Inr RNone, reapplied eng e)"
    by (simp add: reapplied_def settled_fields)
  show ?thesis
    by (simp add: reset_def Let_def command_center_clear_def t r andthen_def)
qed

lemma get_single_state_fields:
  "initial_reset (snd (get_single_state e)) = initial_reset e"
  "sensor_map (snd (get_single_state e)) = sensor_map e"
  "agents (snd (get_single_state e)) = agents e"
  "state_dict (snd (get_single_state e)) = state_dict e"
  "default_single (snd (get_single_state e)) = default_single e"
  "copy_state (snd (get_single_state e)) = copy_state e"
  "pre_start_steps (snd (get_single_state e)) = pre_start_steps e"
  "main_agent (snd (get_single_state e)) = main_agent e"
  "command_queue (snd (get_single_state e)) = command_queue e"
  "stdout (snd (get_single_state e)) = stdout e"
  "handoffs (snd (get_single_state e)) = handoffs e"
  "shm (snd (get_single_state e)) = shm e"
  "prefix (heap e) (heap (snd (get_single_state e)))"
  using get_single_state_snd[of e] by auto

lemma default_state_fn_fields:
  "initial_reset (snd (default_state_fn e)) = initial_reset e"
  "sensor_map (snd (default_state_fn e)) = sensor_map e"
  "agents (snd (default_state_fn e)) = agents e"
  "state_dict (snd (default_state_fn e)) = state_dict e"
  "default_single (snd (default_state_fn e)) = default_single e"
  "copy_state (snd (default_state_fn e)) = copy_state e"
  "pre_start_steps (snd (default_state_fn e)) = pre_start_steps e"
  "main_agent (snd (default_state_fn e)) = main_agent e"
  "command_queue (snd (default_state_fn e)) = command_queue e"
  "stdout (snd (default_state_fn e)) = stdout e"
  "handoffs (snd (default_state_fn e)) = handoffs e"
  "shm (snd (default_state_fn e)) = shm e"
  "prefix (heap e) (heap (snd (default_state_fn e)))"
  by (simp_all add: default_state_fn_def get_single_state_fields get_full_state_snd)

lemma settled_heap: "prefix (heap e) (heap (settled eng e))"
  using settle_heap[of "e\<lparr>initial_reset := True, shm := (shm e)\<lparr>reset_flag := True\<rparr>, command_queue := []\<rparr>"]
  by (simp add: settled_def)

lemma reset_fields:
  "initial_reset (snd (reset eng e))"
  "sensor_map (snd (reset eng e)) = sensor_map e"
  "agents (snd (reset eng e)) = agents e"
  "state_dict (snd (reset eng e)) = state_dict e"
  "default_single (snd (reset eng e)) = default_single e"
  "copy_state (snd (reset eng e)) = copy_state e"
  "pre_start_steps (snd (reset eng e)) = pre_start_steps e"
  "main_agent (snd (reset eng e)) = main_agent e"
  by (simp_all add: reset_eq default_state_fn_fields reapplied_def settled_fields)

lemma reset_heap: "prefix (heap e) (heap (snd (reset eng e)))"
proof -
  have "prefix (heap (reapplied eng e)) (heap (snd (reset eng e)))"
    by (simp add: reset_eq default_state_fn_fields)
  moreover have "heap (reapplied eng e) = heap (settled eng e)"
    by (simp add: reapplied_def)
  ultimately show ?thesis
    using settled_heap[of e eng] by (auto intro: prefix_order.trans)
qed

subsection \<open>What every call keeps\<close>

lemma add_agents_fields:
  "initial_reset (add_agents ds e) = initial_reset e"
  "sensor_map (add_agents ds e) = sensor_map e"
  "default_single (add_agents ds e) = default_single e"
  "copy_state (add_agents ds e) = copy_state e"
  "pre_start_steps (add_agents ds e) = pre_start_steps e"
  "main_agent (add_agents ds e) = main_agent e"
  "command_queue (add_agents ds e) = command_queue e"
  "handoffs (add_agents ds e) = handoffs e"
  "shm (add_agents ds e) = shm e"
  "heap (add_agents ds e) = heap e"
  by (induction ds arbitrary: e; simp add: print_def)+

lemma keeps_refl: "keeps e e"
  by (simp add: keeps_def)

lemma keeps_trans: "keeps e e1 \<Longrightarrow> keeps e1 e2 \<Longrightarrow> keeps e e2"
  by (auto simp: keeps_def intro: prefix_order.trans)

lemma step_eq:
  "step eng action e =
     (if \<not> initial_reset e
      then (Inl (HolodeckException ''You must call .reset() before .step()''), e)
      else (case main_agent e of
              Some n \<Rightarrow> get_single_state (handshake eng (agent_act n action e))
            | None \<Rightarrow> get_full_state (handshake eng e)))"
  by (simp add: step_def handshake_def raise_def split: option.splits)

lemma keeps_handshake: "keeps e (handshake eng e)"
  by (simp add: handshake_eq keeps_def)

lemma keeps_get_full_state: "keeps e (snd (get_full_state e))"
  by (simp add: get_full_state_snd keeps_def)

lemma keeps_get_single_state: "keeps e (snd (get_single_state e))"
  by (simp add: get_single_state_fields keeps_def)

lemma keeps_tick: "keeps e (snd (tick eng e))"
  by (auto simp: tick_eq keeps_refl intro: keeps_trans[OF keeps_handshake keeps_get_full_state])

lemma keeps_agent_act: "keeps e (agent_act n a e)"
  by (simp add: agent_act_def keeps_def)

lemma keeps_step: "keeps e (snd (step eng a e))"
proof (cases "initial_reset e")
  case False
  then show ?thesis by (simp add: step_eq keeps_refl)
next
  case True
  show ?thesis
  proof (cases "main_agent e")
    case None
    with True show ?thesis
      by (simp add: step_eq keeps_trans[OF keeps_handshake keeps_get_full_state])
  next
    case (Some n)
    have "keeps e (handshake eng (agent_act n a e))"
      by (rule keeps_trans[OF keeps_agent_act keeps_handshake])
    from keeps_trans[OF this keeps_get_single_state] True Some show ?thesis
      by (simp add: step_eq)
  qed
qed

lemma keeps_enqueue: "keeps e (enqueue_command c e)"
  by (simp add: enqueue_command_def keeps_def)

lemma keeps_print: "keeps e (print p e)"
  by (simp add: print_def keeps_def)

lemma keeps_teleport: "keeps e (snd (teleport eng n l r e))"
proof (cases "map_of (agents e) n")
  case None
  then show ?thesis by (simp add: teleport_def raise_def keeps_refl)
next
  case (Some a)
  let ?e1 = "agent_teleport (agent_name a) l r e"
  have "keeps e ?e1" by (simp add: agent_teleport_def keeps_enqueue)
  from keeps_trans[OF this keeps_tick[of ?e1 eng]] Some show ?thesis
    by (cases "tick eng ?e1") (auto simp: teleport_def andthen_def ok_def split: sum.splits)
qed

lemma keeps_set_state: "keeps e (snd (set_state eng n l r v w e))"
proof (cases "map_of (agents e) n")
  case None
  then show ?thesis by (simp add: set_state_def raise_def keeps_refl)
next
  case (Some a)
  let ?e1 = "agent_set_state (agent_name a) l r v w e"
  have "keeps e ?e1" by (simp add: agent_set_state_def keeps_enqueue)
  from keeps_trans[OF this keeps_tick[of ?e1 eng]] Some show ?thesis
    by (simp add: set_state_def)
qed

lemma keeps_add_agents: "keeps e (add_agents ds e)"
proof (induction ds arbitrary: e)
  case Nil
  show ?case by (simp add: keeps_refl)
next
  case (Cons d ds)
  let ?e1 = "if map_of (agents e) (def_name d) \<noteq> None
        then print AgentNameDuplicate e
        else e\<lparr>agents := AList.update (def_name d) (build_agent d) (agents e),
               state_dict :=
                 AList.update (def_name d) (agent_state_dict (build_agent d)) (state_dict e)\<rparr>"
  have "keeps e ?e1"
    by (simp add: keeps_print) (simp add: keeps_def distinct_update)
  from keeps_trans[OF this Cons[of ?e1]] show ?case by simp
qed

lemma keeps_spawn_agent: "keeps e (snd (spawn_agent d l e))"
proof -
  let ?e2 = "enqueue_command (SpawnAgentCommand l (def_name d) (def_type d)) (add_agents [d] e)"
  have k: "keeps e ?e2"
    by (rule keeps_trans[OF keeps_add_agents keeps_enqueue])
  have "keeps ?e2 (?e2\<lparr>main_agent := Some (def_name d)\<rparr>)"
    by (simp add: keeps_def)
  from keeps_trans[OF k this] k show ?thesis
    by (simp add: spawn_agent_def Let_def ok_def)
qed

lemma keeps_set_ticks_per_capture: "keeps e (snd (set_ticks_per_capture n v e))"
  by (simp add: set_ticks_per_capture_def ok_def keeps_print)
     (simp add: keeps_def enqueue_command_def agent_set_ticks_per_capture_def distinct_map_entry)

lemma keeps_set_control_scheme: "keeps e (snd (set_control_scheme n v e))"
  by (simp add: set_control_scheme_def ok_def keeps_print)
     (simp add: keeps_def agent_set_control_scheme_def distinct_map_entry)

lemma keeps_send_world_command: "keeps e (snd (send_world_command n ps ss e))"
  by (simp add: send_world_command_def ok_def keeps_enqueue)

lemma keeps_set_sensor_enabled: "keeps e (snd (set_sensor_enabled n s b e))"
  by (simp add: set_sensor_enabled_def ok_def raise_def keeps_enqueue keeps_print keeps_refl
        split: option.splits)

lemma keeps_reset: "keeps e (snd (reset eng e))"
  by (simp add: keeps_def reset_fields reset_heap)

lemma keeps_exec: "keeps e (snd (exec eng c e))"
  by (cases c)
     (simp_all add: keeps_reset keeps_step keeps_tick keeps_teleport keeps_set_state
        keeps_spawn_agent keeps_set_ticks_per_capture keeps_set_control_scheme
        keeps_send_world_command keeps_set_sensor_enabled keeps_refl keeps_enqueue
        keeps_agent_act act_def draw_line_def draw_arrow_def draw_box_def draw_point_def
        set_fog_density_def set_day_time_def start_day_cycle_def stop_day_cycle_def
        set_weather_def teleport_camera_def should_render_viewport_def
        set_render_quality_def ok_def raise_def split: option.splits)

lemma keeps_run: "keeps e (run eng cs e)"
proof (induction cs arbitrary: e)
  case Nil
  show ?case by (simp add: keeps_refl)
next
  case (Cons c cs)
  from keeps_trans[OF keeps_exec Cons] show ?case by simp
qed

subsection \<open>Only reset writes the initialization flag\<close>

lemma andthen_ok_snd: "snd (andthen m (\<lambda>_. ok v)) = snd m"
  by (cases m) (auto simp: andthen_def ok_def split: sum.splits)

lemma flag_tick: "initial_reset (snd (tick eng e)) = initial_reset e"
  by (simp add: tick_eq get_full_state_snd handshake_eq)

lemma flag_step: "initial_reset (snd (step eng a e)) = initial_reset e"
  by (cases "main_agent e")
     (simp_all add: step_eq get_full_state_snd get_single_state_fields handshake_eq agent_act_def)

lemma flag_teleport: "initial_reset (snd (teleport eng n l r e)) = initial_reset e"
  by (cases "map_of (agents e) n")
     (simp_all add: teleport_def raise_def andthen_ok_snd flag_tick agent_teleport_def
        enqueue_command_def)

lemma flag_set_state: "initial_reset (snd (set_state eng n l r v w e)) = initial_reset e"
  by (cases "map_of (agents e) n")
     (simp_all add: set_state_def raise_def flag_tick agent_set_state_def enqueue_command_def)

lemma flag_spawn_agent: "initial_reset (snd (spawn_agent d l e)) = initial_reset e"
  by (simp add: spawn_agent_def Let_def ok_def enqueue_command_def add_agents_fields
        del: add_agents.simps)

lemma flag_act: "initial_reset (snd (act n a e)) = initial_reset e"
  by (cases "map_of (agents e) n") (simp_all add: act_def raise_def ok_def agent_act_def)

lemma flag_set_ticks_per_capture:
  "initial_reset (snd (set_ticks_per_capture n v e)) = initial_reset e"
  by (simp add: set_ticks_per_capture_def ok_def print_def enqueue_command_def
        agent_set_ticks_per_capture_def)

lemma flag_set_control_scheme:
  "initial_reset (snd (set_control_scheme n v e)) = initial_reset e"
  by (simp add: set_control_scheme_def ok_def print_def agent_set_control_scheme_def)

lemma flag_set_sensor_enabled:
  "initial_reset (snd (set_sensor_enabled n s b e)) = initial_reset e"
  by (cases "sensor_map e")
     (simp_all add: set_sensor_enabled_def ok_def raise_def print_def enqueue_command_def)

lemma flag_send_world_command:
  "initial_reset (snd (send_world_command n ps ss e)) = initial_reset e"
  by (simp add: send_world_command_def ok_def enqueue_command_def)

lemma flag_enqueue: "initial_reset (enqueue_command c e) = initial_reset e"
  by (simp add: enqueue_command_def)

lemma flag_exec: "c \<noteq> Reset \<Longrightarrow> initial_reset (snd (exec eng c e)) = initial_reset e"
  by (cases c)
     (simp_all add: flag_tick flag_step flag_teleport flag_set_state flag_spawn_agent
        flag_act flag_set_ticks_per_capture flag_set_control_scheme flag_set_sensor_enabled
        flag_send_world_command flag_enqueue
        draw_line_def draw_arrow_def draw_box_def draw_point_def
        set_fog_density_def set_day_time_def start_day_cycle_def stop_day_cycle_def
        set_weather_def teleport_camera_def should_render_viewport_def
        set_render_quality_def ok_def raise_def)

lemma flag_run: "Reset \<notin> set cs \<Longrightarrow> initial_reset (run eng cs e) = initial_reset e"
proof (induction cs arbitrary: e)
  case Nil
  show ?case by simp
next
  case (Cons c cs)
  from Cons.prems have c: "c \<noteq> Reset" and cs: "Reset \<notin> set cs" by auto
  have "initial_reset (run eng cs (snd (exec eng c e))) = initial_reset (snd (exec eng c e))"
    by (rule Cons.IH[OF cs])
  with flag_exec[OF c] show ?case by simp
qed

lemma flag_init: "\<not> initial_reset (init eng ds p c mem)"
  by (simp add: init_def Let_def client_acquire_def)

subsection \<open>The scan for the Task sensor\<close>

lemma task_scan_last:
  assumes "\<forall>p \<in> set sd. contains ''Task'' (fst p) \<longrightarrow> 2 \<le> length (sensor_mem (shm e) (snd p))"
  shows "task_scan e sd acc =
           Inr (case task_sensors sd of
                  [] \<Rightarrow> acc
                | t # ts \<Rightarrow>
                    (Some (sensor_mem (shm e) (snd (last (t # ts))) ! 0),
                     Some (sensor_mem (shm e) (snd (last (t # ts))) ! 1 = 1)))"
  using assms
proof (induction sd arbitrary: acc)
  case Nil
  show ?case by (simp add: task_sensors_def)
next
  case (Cons p sd)
  obtain s b where p: "p = (s, b)" by (cases p)
  from Cons.prems have rest:
    "\<forall>p \<in> set sd. contains ''Task'' (fst p) \<longrightarrow> 2 \<le> length (sensor_mem (shm e) (snd p))"
    by simp
  show ?case
  proof (cases "contains ''Task'' s")
    case False
    with Cons.IH[OF rest, of acc] p show ?thesis
      by (simp add: task_sensors_def)
  next
    case True
    with Cons.prems p have len: "2 \<le> length (sensor_mem (shm e) b)" by simp
    let ?acc = "(Some (sensor_mem (shm e) b ! 0), Some (sensor_mem (shm e) b ! 1 = 1))"
    from len have ne: "sensor_mem (shm e) b \<noteq> []" by auto
    from Cons.IH[OF rest, of ?acc] True len ne p show ?thesis
      by (cases "filter (\<lambda>p. contains ''Task'' (fst p)) sd") (simp_all add: task_sensors_def)
  qed
qed

lemma owned_from_keys: "map fst (owned_from n ks) = ks"
  by (induction ks arbitrary: n) simp_all

subsection \<open>Registered agents\<close>

lemma add_agents_untouched:
  "map_of (agents e) n = Some a \<Longrightarrow>
   map_of (agents (add_agents ds e)) n = Some a \<and>
   map_of (state_dict (add_agents ds e)) n = map_of (state_dict e) n"
proof (induction ds arbitrary: e)
  case Nil
  then show ?case by simp
next
  case (Cons d ds)
  let ?e1 = "if map_of (agents e) (def_name d) \<noteq> None
        then print AgentNameDuplicate e
        else e\<lparr>agents := AList.update (def_name d) (build_agent d) (agents e),
               state_dict :=
                 AList.update (def_name d) (agent_state_dict (build_agent d)) (state_dict e)\<rparr>"
  have a1: "map_of (agents ?e1) n = Some a"
    using Cons.prems by (auto simp: print_def update_conv')
  have s1: "map_of (state_dict ?e1) n = map_of (state_dict e) n"
    using Cons.prems by (auto simp: print_def update_conv')
  from Cons.IH[OF a1] s1 show ?case by simp
qed

lemma init_distinct: "distinct (map fst (agents (init eng ds p c mem)))"
proof -
  let ?e0 = "\<lparr>pre_start_steps = p, copy_state = c,
                shm = mem\<lparr>reset_flag := False\<rparr>, command_queue = [],
                agents = [], state_dict = [], num_agents = 0, main_agent = None,
                default_single = False, initial_reset = False, sensor_map = None,
                heap = [], stdout = [], handoffs = []\<rparr>"
  have "distinct (map fst (agents (add_agents ds ?e0)))"
    using keeps_add_agents[of ?e0 ds] by (simp add: keeps_def)
  then show ?thesis
    by (simp add: init_def Let_def client_acquire_def)
qed

lemma reachable_distinct: "distinct (map fst (agents (run eng cs (init eng' ds p c mem))))"
  using keeps_run[of "init eng' ds p c mem" eng cs] init_distinct[of eng' ds p c mem]
  by (simp add: keeps_def)

subsection \<open>The example environment\<close>

lemma uav_env_fields:
  "main_agent uav_env = Some ''uav0''"
  "state_dict uav_env =
     [(''uav0'', [(''RGBCamera'', (''uav0'', ''RGBCamera'')), (''TaskSensor'', (''uav0'', ''TaskSensor''))])]"
  "agents uav_env = [(''uav0'', build_agent uav)]"
  "sensor_mem (shm uav_env) b = [1, 1]"
  "copy_state uav_env"
  "default_single uav_env"
  "heap uav_env = []"
  "stdout uav_env = []"
  "command_queue uav_env = []"
  "handoffs uav_env = []"
  "pre_start_steps uav_env = 2"
  "\<not> initial_reset uav_env"
  "\<not> reset_flag (shm uav_env)"
  "sensor_map uav_env = None"
  by (simp_all add: uav_env_def init_def Let_def client_acquire_def counting_engine_def
        zero_memory_def uav_def build_agent_def)

lemma sphere_env_fields:
  "main_agent sphere_env = Some ''sphere0''"
  "state_dict sphere_env = [(''sphere0'', [(''LocationSensor'', (''sphere0'', ''LocationSensor''))])]"
  "agents sphere_env = [(''sphere0'', build_agent sphere)]"
  "\<not> copy_state sphere_env"
  "pre_start_steps sphere_env = 0"
  "handoffs sphere_env = []"
  by (simp_all add: sphere_env_def init_def Let_def client_acquire_def sphere_def build_agent_def)

lemma sphere_no_camera: "\<forall>n a. map_of (agents sphere_env) n = Some a \<longrightarrow> \<not> has_camera a"
  by (auto simp: sphere_env_fields build_agent_def sphere_def split: if_splits)

lemma pair_env_fields:
  "map fst (agents pair_env) = [''uav0'', ''sphere0'']"
  "map fst (state_dict pair_env) = [''uav0'', ''sphere0'']"
  "\<not> default_single pair_env"
  by (simp_all add: pair_env_def init_def Let_def client_acquire_def sphere_def uav_def
        build_agent_def)

subsection \<open>The handoffs of a reset\<close>

lemma prefix_nth: "prefix xs ys \<Longrightarrow> i < length xs \<Longrightarrow> ys ! i = xs ! i"
  by (auto simp: prefix_def nth_append)

lemma settle_first_handoff:
  "handoffs (settle eng (Suc n) e) ! length (handoffs e) =
     (shm e)\<lparr>command_buffer := command_queue e\<rparr>"
proof -
  let ?e1 = "snd (get_full_state (handshake eng e))"
  have h1: "handoffs ?e1 = handoffs e @ [(shm e)\<lparr>command_buffer := command_queue e\<rparr>]"
    by (simp add: get_full_state_snd handshake_eq)
  have "handoffs (settle eng n ?e1) ! length (handoffs e) = handoffs ?e1 ! length (handoffs e)"
    by (rule prefix_nth[OF settle_handoffs]) (simp add: h1)
  then show ?thesis by (simp add: h1)
qed

lemma settle_flushes_empty:
  "command_queue e = [] \<Longrightarrow> i < n \<Longrightarrow>
   command_buffer (handoffs (settle eng n e) ! (length (handoffs e) + i)) = []"
proof (induction n arbitrary: e i)
  case 0
  then show ?case by simp
next
  case (Suc n)
  let ?e1 = "snd (get_full_state (handshake eng e))"
  show ?case
  proof (cases i)
    case 0
    with Suc.prems show ?thesis by (simp add: settle_first_handoff del: settle.simps)
  next
    case (Suc j)
    have q: "command_queue ?e1 = []" by (simp add: get_full_state_snd handshake_eq)
    have l: "length (handoffs ?e1) = Suc (length (handoffs e))"
      by (simp add: get_full_state_snd handshake_eq)
    from Suc Suc.prems have "j < n" by simp
    from Suc.IH[OF q this] l Suc show ?thesis by simp
  qed
qed

lemma settle_flag:
  "(\<forall>s. reset_flag (eng s) = reset_flag s) \<Longrightarrow>
   reset_flag (shm (settle eng n e)) = reset_flag (shm e)"
proof (induction n arbitrary: e)
  case 0
  show ?case by simp
next
  case (Suc n)
  let ?e1 = "snd (get_full_state (handshake eng e))"
  have "reset_flag (shm ?e1) = reset_flag (shm e)"
    using Suc.prems by (simp add: get_full_state_snd handshake_eq)
  with Suc.IH[OF Suc.prems, of ?e1] show ?case by simp
qed

lemma reset_after:
  "command_queue (snd (reset eng e)) = reapplied_commands (agents e) (map fst (agents e))"
  "stdout (snd (reset eng e)) = stdout e @ reapplied_warnings (agents e) (map fst (agents e))"
  "handoffs (snd (reset eng e)) = handoffs (settled eng e)"
  "shm (snd (reset eng e)) = shm (settled eng e)"
  by (simp_all add: reset_eq default_state_fn_fields reapplied_def)

lemma reset_handoffs_length:
  "length (handoffs (snd (reset eng e))) = length (handoffs e) + nat (pre_start_steps e + 1)"
  by (simp add: reset_after settled_fields)

lemma reset_first_handoff:
  assumes "0 \<le> pre_start_steps e"
  shows "handoffs (snd (reset eng e)) ! length (handoffs e) =
           (shm e)\<lparr>reset_flag := True, command_buffer := []\<rparr>"
proof -
  from assms obtain n where n: "nat (pre_start_steps e + 1) = Suc n"
    by (cases "nat (pre_start_steps e + 1)") auto
  let ?e0 = "e\<lparr>initial_reset := True, shm := (shm e)\<lparr>reset_flag := True\<rparr>, command_queue := []\<rparr>"
  have "handoffs (settle eng (Suc n) ?e0) ! length (handoffs ?e0) =
          (shm ?e0)\<lparr>command_buffer := command_queue ?e0\<rparr>"
    by (rule settle_first_handoff)
  then show ?thesis by (simp add: reset_after settled_def n)
qed

lemma reset_flushes_empty:
  assumes "i < nat (pre_start_steps e + 1)"
  shows "command_buffer (handoffs (snd (reset eng e)) ! (length (handoffs e) + i)) = []"
proof -
  let ?e0 = "e\<lparr>initial_reset := True, shm := (shm e)\<lparr>reset_flag := True\<rparr>, command_queue := []\<rparr>"
  have "command_queue ?e0 = []" by simp
  from settle_flushes_empty[OF this assms, of eng] show ?thesis
    by (simp add: reset_after settled_def)
qed

lemma reset_flag_kept:
  assumes "\<forall>s. reset_flag (eng s) = reset_flag s"
  shows "reset_flag (shm (snd (reset eng e)))"
  using settle_flag[OF assms, of "nat (pre_start_steps e + 1)"
      "e\<lparr>initial_reset := True, shm := (shm e)\<lparr>reset_flag := True\<rparr>, command_queue := []\<rparr>"]
  by (simp add: reset_after settled_def)

lemma reapplied_commands_none:
  "(\<forall>n a. map_of ags n = Some a \<longrightarrow> \<not> has_camera a) \<Longrightarrow> reapplied_commands ags ns = []"
  by (induction ns) (auto simp: reapplied_commands_def split: option.splits)

lemma counting_engine_flag: "\<forall>s. reset_flag (counting_engine s) = reset_flag s"
  by (simp add: counting_engine_def)

lemma uav_reapplied:
  "reapplied_commands (agents uav_env) (map fst (agents uav_env)) =
     [RGBCameraRateCommand ''uav0'' (PyInt 1)]"
  by (simp add: uav_env_fields reapplied_commands_def build_agent_def uav_def invalid_rate_def)

lemma tuned_reapplied:
  "reapplied_commands (agents tuned_env) (map fst (agents tuned_env)) =
     [RGBCameraRateCommand ''uav0'' (PyInt 5)]"
  by (simp add: tuned_env_def set_ticks_per_capture_def invalid_rate_def ok_def
        enqueue_command_def agent_set_ticks_per_capture_def uav_env_fields
        reapplied_commands_def build_agent_def uav_def)

subsection \<open>The value reset returns\<close>

lemma reapplied_commands_member:
  assumes "map_of ags n = Some a" and "has_camera a" and "\<not> invalid_rate (ticks_per_capture a)"
    and "n \<in> set ns"
  shows "RGBCameraRateCommand n (ticks_per_capture a) \<in> set (reapplied_commands ags ns)"
  using assms by (auto simp: reapplied_commands_def intro!: bexI[of _ n])

lemma owned_full_keys: "map fst (owned_full n m) = map fst m"
  by (induction m arbitrary: n) auto

lemma get_full_state_shape:
  "\<exists>m. fst (get_full_state e) = Inr (RFull m) \<and> map fst m = map fst (state_dict e)"
  by (auto simp: get_full_state_eq owned_full_keys split_def comp_def)

lemma get_single_state_shape:
  "fst (get_single_state e) \<noteq> Inr (RFull m) \<and> fst (get_single_state e) \<noteq> Inr RNone"
  by (auto simp: get_single_state_def create_copy_sensors_eq raise_def ok_def
           split: option.splits sum.splits prod.splits)

lemma init_config:
  "default_single (init eng ds p c mem) = (length (agents (init eng ds p c mem)) = 1)"
  "pre_start_steps (init eng ds p c mem) = p"
  "copy_state (init eng ds p c mem) = c"
  "sensor_map (init eng ds p c mem) = None"
  by (simp_all add: init_def Let_def client_acquire_def add_agents_fields)

lemma reachable_config:
  "default_single (run eng cs (init eng' ds p c mem)) = (length (agents (init eng' ds p c mem)) = 1)"
  "pre_start_steps (run eng cs (init eng' ds p c mem)) = p"
  "copy_state (run eng cs (init eng' ds p c mem)) = c"
  "sensor_map (run eng cs (init eng' ds p c mem)) = None"
  using keeps_run[of "init eng' ds p c mem" eng cs]
  by (simp_all add: keeps_def init_config)

subsection \<open>Reading a copy\<close>

lemma observe_owned_from:
  "heap e' = H @ vs @ R \<Longrightarrow> length vs = length ks \<Longrightarrow>
   observe_state e' (owned_from (length H) ks) = zip ks vs"
proof (induction ks arbitrary: H vs)
  case Nil
  then show ?case by (simp add: observe_state_def)
next
  case (Cons k ks)
  from Cons.prems(2) obtain v vs' where vs: "vs = v # vs'" by (cases vs) auto
  with Cons.prems have h: "heap e' = (H @ [v]) @ vs' @ R" and l: "length vs' = length ks"
    by simp_all
  from Cons.IH[OF h l] have "observe_state e' (owned_from (Suc (length H)) ks) = zip ks vs'"
    by simp
  moreover have "read_array e' (Owned (length H)) = v"
    using Cons.prems(1) vs by (simp add: nth_append)
  ultimately show ?case
    using vs by (simp add: observe_state_def)
qed

lemma zip_block_values: "zip (map fst sd) (block_values sh sd) = shared_state sh sd"
  by (induction sd) (simp_all add: block_values_def shared_state_def)

lemma observe_copy_sensors:
  "heap e' = H @ block_values sh sd @ R \<Longrightarrow>
   observe_state e' (owned_from (length H) (map fst sd)) = shared_state sh sd"
proof -
  assume h: "heap e' = H @ block_values sh sd @ R"
  have l: "length (block_values sh sd) = length (map fst sd)"
    by (simp add: block_values_def)
  from observe_owned_from[OF h l] show ?thesis
    by (simp add: zip_block_values)
qed

lemma observe_copy_full:
  "heap e' = H @ full_values sh m @ R \<Longrightarrow>
   map (\<lambda>q. (fst q, observe_state e' (snd q))) (owned_full (length H) m) =
   map (\<lambda>q. (fst q, shared_state sh (snd q))) m"
proof (induction m arbitrary: H)
  case Nil
  show ?case by simp
next
  case (Cons q m)
  obtain k sd where q: "q = (k, sd)" by (cases q)
  from Cons.prems q have h1: "heap e' = H @ block_values sh sd @ (full_values sh m @ R)"
    by (simp add: full_values_def)
  then have h2: "heap e' = (H @ block_values sh sd) @ full_values sh m @ R"
    by simp
  have l: "length (H @ block_values sh sd) = length H + length sd"
    by (simp add: block_values_def)
  from Cons.IH[OF h2] observe_copy_sensors[OF h1] q l show ?case
    by simp
qed

lemma owned_from_fresh:
  "x \<in> snd ` set (owned_from n ks) \<Longrightarrow> \<exists>i. x = Owned i \<and> n \<le> i \<and> i < n + length ks"
proof (induction ks arbitrary: n)
  case Nil
  then show ?case by simp
next
  case (Cons k ks)
  show ?case
  proof (cases "x = Owned n")
    case True
    then show ?thesis by simp
  next
    case False
    with Cons.prems have "x \<in> snd ` set (owned_from (Suc n) ks)" by auto
    from Cons.IH[OF this] obtain i where "x = Owned i" "Suc n \<le> i" "i < Suc n + length ks"
      by blast
    then show ?thesis by auto
  qed
qed

lemma full_values_length:
  "length (full_values sh ((k, sd) # m)) = length sd + length (full_values sh m)"
  by (simp add: full_values_def block_values_def)

lemma owned_full_fresh:
  "x \<in> set (arrays_of (RFull (owned_full n m))) \<Longrightarrow>
   \<exists>i. x = Owned i \<and> n \<le> i \<and> i < n + length (full_values sh m)"
proof (induction m arbitrary: n)
  case Nil
  then show ?case by simp
next
  case (Cons q m)
  obtain k sd where q: "q = (k, sd)" by (cases q)
  from Cons.prems q
  consider "x \<in> snd ` set (owned_from n (map fst sd))"
    | "x \<in> set (arrays_of (RFull (owned_full (n + length sd) m)))"
    by auto
  then show ?case
  proof cases
    case 1
    from owned_from_fresh[OF this] q show ?thesis
      by (auto simp: full_values_length)
  next
    case 2
    from Cons.IH[OF this] obtain i where
      "x = Owned i" "n + length sd \<le> i" "i < n + length sd + length (full_values sh m)"
      by blast
    with q show ?thesis by (auto simp: full_values_length)
  qed
qed

lemma read_owned_stable:
  "prefix (heap e1) (heap e2) \<Longrightarrow> i < length (heap e1) \<Longrightarrow>
   read_array e2 (Owned i) = read_array e1 (Owned i)"
  by (auto simp: prefix_def nth_append)

lemma observe_cong:
  "(\<forall>x \<in> set (arrays_of r). read_array e2 x = read_array e1 x) \<Longrightarrow> observe e2 r = observe e1 r"
  by (cases r) (auto simp: observe_state_def)

lemma get_full_state_private:
  assumes "copy_state h" and "get_full_state h = (Inr r, e1)"
  shows "private_copy h r e1"
proof -
  from assms have r: "r = RFull (owned_full (length (heap h)) (state_dict h))"
    and e1: "e1 = h\<lparr>heap := heap h @ full_values (shm h) (state_dict h)\<rparr>"
    by (simp_all add: get_full_state_eq)
  have "heap e1 = heap h @ full_values (shm h) (state_dict h) @ []"
    by (simp add: e1)
  from observe_copy_full[OF this] have "observe e1 r = live e1 r"
    by (simp add: r e1)
  moreover have "\<forall>x \<in> set (arrays_of r). \<exists>i. x = Owned i \<and> length (heap h) \<le> i \<and> i < length (heap e1)"
    using owned_full_fresh[of _ "length (heap h)" "state_dict h" "shm h"]
    by (simp add: r e1)
  ultimately show ?thesis by (simp add: private_copy_def)
qed

lemma get_single_state_private:
  assumes "copy_state h" and "get_single_state h = (Inr r, e1)"
  shows "private_copy h r e1"
proof -
  from assms(2) obtain n where n: "main_agent h = Some n"
    by (cases "main_agent h") (auto simp: get_single_state_def raise_def)
  from assms(2) n obtain sd where sd: "map_of (state_dict h) n = Some sd"
    by (cases "map_of (state_dict h) n") (auto simp: get_single_state_def raise_def)
  from assms(2) n sd obtain rw tm where t: "task_scan h sd (None, None) = Inr (rw, tm)"
    by (cases "task_scan h sd (None, None)") (auto simp: get_single_state_def raise_def)
  from assms n sd t have r: "r = RSingle (owned_from (length (heap h)) (map fst sd)) rw tm"
    and e1: "e1 = h\<lparr>heap := heap h @ block_values (shm h) sd\<rparr>"
    by (simp_all add: get_single_state_def create_copy_sensors_eq ok_def)
  have "heap e1 = heap h @ block_values (shm h) sd @ []"
    by (simp add: e1)
  from observe_copy_sensors[OF this] have "observe e1 r = live e1 r"
    by (simp add: r e1 n sd)
  moreover have "\<forall>x \<in> set (arrays_of r). \<exists>i. x = Owned i \<and> length (heap h) \<le> i \<and> i < length (heap e1)"
    using owned_from_fresh[of _ "length (heap h)" "map fst sd"]
    by (simp add: r e1 block_values_def)
  ultimately show ?thesis by (simp add: private_copy_def)
qed

lemma tick_private:
  assumes "copy_state e" and "tick eng e = (Inr r, e1)"
  shows "private_copy e r e1"
proof -
  from assms(2) have i: "initial_reset e"
    by (cases "initial_reset e") (auto simp: tick_eq)
  have c: "copy_state (handshake eng e)" and h: "heap (handshake eng e) = heap e"
    using assms(1) by (simp_all add: handshake_eq)
  from assms(2) i have "get_full_state (handshake eng e) = (Inr r, e1)"
    by (simp add: tick_eq)
  from get_full_state_private[OF c this] h show ?thesis
    by (simp add: private_copy_def)
qed

lemma step_private:
  assumes "copy_state e" and "step eng a e = (Inr r, e1)"
  shows "private_copy e r e1"
proof -
  from assms(2) have i: "initial_reset e"
    by (cases "initial_reset e") (auto simp: step_eq)
  show ?thesis
  proof (cases "main_agent e")
    case None
    have c: "copy_state (handshake eng e)" and h: "heap (handshake eng e) = heap e"
      using assms(1) by (simp_all add: handshake_eq)
    from assms(2) i None have "get_full_state (handshake eng e) = (Inr r, e1)"
      by (simp add: step_eq)
    from get_full_state_private[OF c this] h show ?thesis
      by (simp add: private_copy_def)
  next
    case (Some n)
    let ?h = "handshake eng (agent_act n a e)"
    have c: "copy_state ?h" and h: "heap ?h = heap e"
      using assms(1) by (simp_all add: handshake_eq agent_act_def)
    from assms(2) i Some have "get_single_state ?h = (Inr r, e1)"
      by (simp add: step_eq)
    from get_single_state_private[OF c this] h show ?thesis
      by (simp add: private_copy_def)
  qed
qed

subsection \<open>The example environment after reset\<close>

lemma counting_settle:
  "sensor_mem (shm (settle counting_engine n e)) b = map (\<lambda>x. x + real n) (sensor_mem (shm e) b)"
proof (induction n arbitrary: e)
  case 0
  show ?case by simp
next
  case (Suc n)
  let ?e1 = "snd (get_full_state (handshake counting_engine e))"
  have "sensor_mem (shm ?e1) b = map (\<lambda>x. x + 1) (sensor_mem (shm e) b)"
    by (simp add: get_full_state_snd handshake_eq counting_engine_def)
  with Suc[of ?e1] show ?case by (simp add: algebra_simps)
qed

lemma ready_env_fields:
  "initial_reset ready_env"
  "copy_state ready_env"
  "main_agent ready_env = Some ''uav0''"
  "state_dict ready_env =
     [(''uav0'', [(''RGBCamera'', (''uav0'', ''RGBCamera'')), (''TaskSensor'', (''uav0'', ''TaskSensor''))])]"
  "agents ready_env = [(''uav0'', build_agent uav)]"
  "sensor_mem (shm ready_env) b = [4, 4]"
  by (simp_all add: ready_env_def reset_fields uav_env_fields reset_after(4) settled_def
        counting_settle)

lemma ready_tick:
  "tick counting_engine ready_env =
     (Inr (RFull [(''uav0'', [(''RGBCamera'', Owned (length (heap ready_env))),
                              (''TaskSensor'', Owned (Suc (length (heap ready_env))))])]),
      snd (tick counting_engine ready_env))"
  by (simp add: tick_eq get_full_state_eq handshake_eq ready_env_fields)

lemma ready_tick_fields:
  "sensor_mem (shm (snd (tick counting_engine ready_env))) b = [5, 5]"
  "state_dict (snd (tick counting_engine ready_env)) = state_dict ready_env"
  "initial_reset (snd (tick counting_engine ready_env))"
  "copy_state (snd (tick counting_engine ready_env))"
  by (simp_all add: tick_eq get_full_state_eq handshake_eq ready_env_fields counting_engine_def)

lemma ready_step:
  "step counting_engine [1] ready_env =
     (Inr (RSingle [(''RGBCamera'', Owned (length (heap ready_env))),
                    (''TaskSensor'', Owned (Suc (length (heap ready_env))))]
             (Some 5) (Some False)),
      snd (step counting_engine [1] ready_env))"
  by (simp add: step_eq get_single_state_def create_copy_sensors_eq handshake_eq agent_act_def
        ready_env_fields counting_engine_def ok_def)

lemma ready_step_fields:
  "sensor_mem (shm (snd (step counting_engine [1] ready_env))) b = [5, 5]"
  "state_dict (snd (step counting_engine [1] ready_env)) = state_dict ready_env"
  "main_agent (snd (step counting_engine [1] ready_env)) = Some ''uav0''"
  "action_buffers (shm (snd (step counting_engine [1] ready_env))) ''uav0'' = [1]"
  by (simp_all add: step_eq get_single_state_def create_copy_sensors_eq handshake_eq agent_act_def
        ready_env_fields counting_engine_def ok_def)

subsection \<open>Overrides and soft errors\<close>

lemma tick_handoff:
  "initial_reset e \<Longrightarrow>
   handoffs (snd (tick eng e)) = handoffs e @ [(shm e)\<lparr>command_buffer := command_queue e\<rparr>]"
  by (simp add: tick_eq get_full_state_snd handshake_eq)

lemma teleport_ticks:
  assumes "initial_reset e" and "map_of (agents e) n = Some a"
  shows "teleport eng n l r e =
           (Inr RNone, snd (tick eng (agent_teleport (agent_name a) l r e)))"
    and "handoffs (snd (teleport eng n l r e)) =
           handoffs e @
           [(shm e)\<lparr>command_buffer := command_queue e @ [TeleportOverride (agent_name a) l r]\<rparr>]"
proof -
  let ?e1 = "agent_teleport (agent_name a) l r e"
  have i: "initial_reset ?e1"
    using assms(1) by (simp add: agent_teleport_def enqueue_command_def)
  then obtain m where m: "fst (tick eng ?e1) = Inr m"
    using get_full_state_shape[of "handshake eng ?e1"] by (auto simp: tick_eq)
  then show t: "teleport eng n l r e = (Inr RNone, snd (tick eng ?e1))"
    using assms(2) by (cases "tick eng ?e1") (simp add: teleport_def andthen_def ok_def)
  show "handoffs (snd (teleport eng n l r e)) =
           handoffs e @
           [(shm e)\<lparr>command_buffer := command_queue e @ [TeleportOverride (agent_name a) l r]\<rparr>]"
    using tick_handoff[OF i, of eng] by (simp add: t agent_teleport_def enqueue_command_def)
qed

lemma set_state_ticks:
  assumes "initial_reset e" and "map_of (agents e) n = Some a"
  shows "set_state eng n l r v w e = tick eng (agent_set_state (agent_name a) l r v w e)"
    and "\<exists>m. fst (set_state eng n l r v w e) = Inr (RFull m)"
    and "handoffs (snd (set_state eng n l r v w e)) =
           handoffs e @
           [(shm e)\<lparr>command_buffer := command_queue e @ [StateOverride (agent_name a) l r v w]\<rparr>]"
proof -
  let ?e1 = "agent_set_state (agent_name a) l r v w e"
  have i: "initial_reset ?e1"
    using assms(1) by (simp add: agent_set_state_def enqueue_command_def)
  show t: "set_state eng n l r v w e = tick eng ?e1"
    using assms(2) by (simp add: set_state_def)
  show "\<exists>m. fst (set_state eng n l r v w e) = Inr (RFull m)"
    using i get_full_state_shape[of "handshake eng ?e1"] by (auto simp: t tick_eq)
  show "handoffs (snd (set_state eng n l r v w e)) =
           handoffs e @
           [(shm e)\<lparr>command_buffer := command_queue e @ [StateOverride (agent_name a) l r v w]\<rparr>]"
    using tick_handoff[OF i, of eng] by (simp add: t agent_set_state_def enqueue_command_def)
qed

lemma ready_agent: "map_of (agents ready_env) ''uav0'' = Some (build_agent uav)"
  by (simp add: ready_env_fields)

lemma ready_queue: "command_queue ready_env = [RGBCameraRateCommand ''uav0'' (PyInt 1)]"
  by (simp add: ready_env_def reset_after(1) uav_reapplied)

lemma soft_error_setters:
  "invalid_rate v \<Longrightarrow>
     set_ticks_per_capture n v e = (Inr RNone, e\<lparr>stdout := stdout e @ [TicksInvalid v]\<rparr>)"
  "\<not> invalid_rate v \<Longrightarrow> map_of (agents e) n = None \<Longrightarrow>
     set_ticks_per_capture n v e = (Inr RNone, e\<lparr>stdout := stdout e @ [NoSuchAgent n]\<rparr>)"
  "map_of (agents e) n = None \<Longrightarrow>
     set_control_scheme n s e = (Inr RNone, e\<lparr>stdout := stdout e @ [NoSuchAgent n]\<rparr>)"
  by (simp_all add: set_ticks_per_capture_def set_control_scheme_def ok_def print_def)

subsection \<open>The registry of agents\<close>

lemma set_fog_density_eq:
  "set_fog_density d e =
     (if float_less d (Finite 0) \<or> float_less (Finite 1) d
      then (Inl (HolodeckException ''Fog density should be between 0 and 1''), e)
      else (Inr RNone, e\<lparr>command_queue := command_queue e @ [CustomCommand ''SetFogDensity'' [d] []]\<rparr>))"
  by (simp add: set_fog_density_def send_world_command_def raise_def ok_def enqueue_command_def)

lemma ready_stdout: "stdout ready_env = []"
  by (simp add: ready_env_def reset_after(2) uav_env_fields reapplied_warnings_def
        build_agent_def uav_def invalid_rate_def)

lemma registered_same: "same_registry e e' \<Longrightarrow> registered e \<Longrightarrow> registered e'"
  by (simp add: same_registry_def registered_def)

lemma same_registry_refl: "same_registry e e"
  by (simp add: same_registry_def)

lemma same_registry_trans: "same_registry e e1 \<Longrightarrow> same_registry e1 e2 \<Longrightarrow> same_registry e e2"
  by (simp add: same_registry_def)

lemma map_entry_keys: "map fst (AList.map_entry k f al) = map fst al"
  by (induction al) auto

lemma same_registry_handshake: "same_registry e (handshake eng e)"
  by (simp add: handshake_eq same_registry_def)

lemma same_registry_get_full_state: "same_registry e (snd (get_full_state e))"
  by (simp add: get_full_state_snd same_registry_def)

lemma same_registry_get_single_state: "same_registry e (snd (get_single_state e))"
  by (simp add: get_single_state_fields same_registry_def)

lemma same_registry_tick: "same_registry e (snd (tick eng e))"
  by (auto simp: tick_eq same_registry_refl
           intro: same_registry_trans[OF same_registry_handshake same_registry_get_full_state])

lemma same_registry_agent_act: "same_registry e (agent_act n a e)"
  by (simp add: agent_act_def same_registry_def)

lemma same_registry_step: "same_registry e (snd (step eng a e))"
proof (cases "initial_reset e")
  case False
  then show ?thesis by (simp add: step_eq same_registry_refl)
next
  case True
  show ?thesis
  proof (cases "main_agent e")
    case None
    with True show ?thesis
      by (simp add: step_eq
            same_registry_trans[OF same_registry_handshake same_registry_get_full_state])
  next
    case (Some n)
    have "same_registry e (handshake eng (agent_act n a e))"
      by (rule same_registry_trans[OF same_registry_agent_act same_registry_handshake])
    from same_registry_trans[OF this same_registry_get_single_state] True Some show ?thesis
      by (simp add: step_eq)
  qed
qed

lemma same_registry_enqueue: "same_registry e (enqueue_command c e)"
  by (simp add: enqueue_command_def same_registry_def)

lemma same_registry_print: "same_registry e (print p e)"
  by (simp add: print_def same_registry_def)

lemma same_registry_teleport: "same_registry e (snd (teleport eng n l r e))"
proof (cases "map_of (agents e) n")
  case None
  then show ?thesis by (simp add: teleport_def raise_def same_registry_refl)
next
  case (Some a)
  let ?e1 = "agent_teleport (agent_name a) l r e"
  have "same_registry e ?e1" by (simp add: agent_teleport_def same_registry_enqueue)
  from same_registry_trans[OF this same_registry_tick[of ?e1 eng]] Some show ?thesis
    by (simp add: teleport_def andthen_ok_snd)
qed

lemma same_registry_set_state: "same_registry e (snd (set_state eng n l r v w e))"
proof (cases "map_of (agents e) n")
  case None
  then show ?thesis by (simp add: set_state_def raise_def same_registry_refl)
next
  case (Some a)
  let ?e1 = "agent_set_state (agent_name a) l r v w e"
  have "same_registry e ?e1" by (simp add: agent_set_state_def same_registry_enqueue)
  from same_registry_trans[OF this same_registry_tick[of ?e1 eng]] Some show ?thesis
    by (simp add: set_state_def)
qed

lemma same_registry_set_ticks_per_capture: "same_registry e (snd (set_ticks_per_capture n v e))"
  by (simp add: set_ticks_per_capture_def ok_def same_registry_print)
     (simp add: same_registry_def enqueue_command_def agent_set_ticks_per_capture_def map_entry_keys)

lemma same_registry_set_control_scheme: "same_registry e (snd (set_control_scheme n v e))"
  by (simp add: set_control_scheme_def ok_def same_registry_print)
     (simp add: same_registry_def agent_set_control_scheme_def map_entry_keys)

lemma same_registry_send_world_command: "same_registry e (snd (send_world_command n ps ss e))"
  by (simp add: send_world_command_def ok_def same_registry_enqueue)

lemma same_registry_set_sensor_enabled: "same_registry e (snd (set_sensor_enabled n s b e))"
  by (simp add: set_sensor_enabled_def ok_def raise_def same_registry_enqueue same_registry_print
        same_registry_refl split: option.splits)

lemma same_registry_reset: "same_registry e (snd (reset eng e))"
  by (simp add: same_registry_def reset_fields)

lemma add_agents_registered:
  "set (map fst (agents e)) \<subseteq> set (map fst (state_dict e)) \<Longrightarrow>
   set (map fst (agents (add_agents ds e))) \<subseteq> set (map fst (state_dict (add_agents ds e))) \<and>
   set (map fst (agents e)) \<union> def_name ` set ds \<subseteq> set (map fst (agents (add_agents ds e)))"
proof (induction ds arbitrary: e)
  case Nil
  then show ?case by simp
next
  case (Cons d ds)
  define e1 where "e1 =
       (if map_of (agents e) (def_name d) \<noteq> None
        then print AgentNameDuplicate e
        else e\<lparr>agents := AList.update (def_name d) (build_agent d) (agents e),
               state_dict :=
                 AList.update (def_name d) (agent_state_dict (build_agent d)) (state_dict e)\<rparr>)"
  have s: "set (map fst (agents e1)) \<subseteq> set (map fst (state_dict e1))"
    using Cons.prems by (auto simp: e1_def print_def dom_update)
  have k: "set (map fst (agents e)) \<union> {def_name d} \<subseteq> set (map fst (agents e1))"
    by (auto simp: e1_def print_def dom_update map_of_eq_None_iff)
  have step: "add_agents (d # ds) e = add_agents ds e1"
    by (simp add: e1_def)
  from Cons.IH[OF s]
  have A: "set (map fst (agents (add_agents ds e1))) \<subseteq> set (map fst (state_dict (add_agents ds e1)))"
    and B: "set (map fst (agents e1)) \<union> def_name ` set ds \<subseteq> set (map fst (agents (add_agents ds e1)))"
    by blast+
  have i: "def_name ` set (d # ds) = insert (def_name d) (def_name ` set ds)"
    by simp
  have "set (map fst (agents e)) \<union> def_name ` set (d # ds)
          \<subseteq> set (map fst (agents (add_agents ds e1)))"
    unfolding i using B k by blast
  with A show ?case
    unfolding step by blast
qed

lemma registered_spawn_agent:
  assumes "registered e"
  shows "registered (snd (spawn_agent d l e))"
proof -
  let ?e1 = "add_agents [d] e"
  from assms have sub: "set (map fst (agents e)) \<subseteq> set (map fst (state_dict e))"
    by (simp add: registered_def)
  from add_agents_registered[OF sub, of "[d]"]
  have a: "set (map fst (agents ?e1)) \<subseteq> set (map fst (state_dict ?e1))"
    and b: "set (map fst (agents e)) \<subseteq> set (map fst (agents ?e1))"
    and c: "def_name d \<in> set (map fst (agents ?e1))"
    by auto
  have m: "main_agent ?e1 = main_agent e" and ds: "default_single ?e1 = default_single e"
    by (simp_all add: add_agents_fields del: add_agents.simps)
  show ?thesis
  proof (cases "main_agent e")
    case None
    with a c m ds assms show ?thesis
      by (simp add: spawn_agent_def Let_def ok_def enqueue_command_def registered_def
            del: add_agents.simps)
  next
    case (Some n)
    with assms have "n \<in> set (map fst (agents e))" by (simp add: registered_def)
    with b have "n \<in> set (map fst (agents ?e1))" by blast
    with a m ds Some show ?thesis
      by (simp add: spawn_agent_def Let_def ok_def enqueue_command_def registered_def
            del: add_agents.simps)
  qed
qed

lemma registered_exec: "registered e \<Longrightarrow> registered (snd (exec eng c e))"
proof (cases c)
  case (SpawnAgent d l)
  assume "registered e"
  with SpawnAgent show ?thesis by (simp add: registered_spawn_agent)
next
  case Reset
  assume "registered e"
  with Reset registered_same[OF same_registry_reset] show ?thesis by simp
qed (auto intro!: registered_same[of e]
       simp: same_registry_step same_registry_tick same_registry_teleport
        same_registry_set_state same_registry_set_ticks_per_capture
        same_registry_set_control_scheme same_registry_send_world_command
        same_registry_set_sensor_enabled same_registry_refl same_registry_enqueue
        same_registry_agent_act act_def draw_line_def draw_arrow_def draw_box_def
        draw_point_def set_fog_density_def set_day_time_def start_day_cycle_def
        stop_day_cycle_def set_weather_def teleport_camera_def should_render_viewport_def
        set_render_quality_def ok_def raise_def split: option.splits)

lemma registered_run: "registered e \<Longrightarrow> registered (run eng cs e)"
  by (induction cs arbitrary: e) (simp_all add: registered_exec)

lemma registered_init: "registered (init eng ds p c mem)"
proof -
  let ?e0 = "\<lparr>pre_start_steps = p, copy_state = c,
                shm = mem\<lparr>reset_flag := False\<rparr>, command_queue = [],
                agents = [], state_dict = [], num_agents = 0, main_agent = None,
                default_single = False, initial_reset = False, sensor_map = None,
                heap = [], stdout = [], handoffs = []\<rparr>"
  let ?e1 = "add_agents ds ?e0"
  have "set (map fst (agents ?e0)) \<subseteq> set (map fst (state_dict ?e0))" by simp
  from add_agents_registered[OF this, of ds]
  have a: "set (map fst (agents ?e1)) \<subseteq> set (map fst (state_dict ?e1))"
    and b: "def_name ` set ds \<subseteq> set (map fst (agents ?e1))"
    by auto
  have h: "agents ?e1 \<noteq> [] \<Longrightarrow> def_name (hd ds) \<in> set (map fst (agents ?e1))"
  proof -
    assume "agents ?e1 \<noteq> []"
    then have "ds \<noteq> []" by (cases ds) auto
    then have "hd ds \<in> set ds" by simp
    with b show ?thesis by blast
  qed
  show ?thesis
    using a h
    by (auto simp: init_def Let_def client_acquire_def registered_def)
qed

lemma reachable_registered: "registered (run eng cs (init eng' ds p c mem))"
  by (simp add: registered_run registered_init)

lemma registered_main:
  assumes "registered e" and "default_single e"
  shows "\<exists>n sd. main_agent e = Some n \<and> map_of (state_dict e) n = Some sd"
proof -
  from assms obtain n where n: "main_agent e = Some n"
    by (auto simp: registered_def)
  with assms(1) have "n \<in> fst ` set (state_dict e)"
    by (auto simp: registered_def)
  then have "map_of (state_dict e) n \<noteq> None"
    by (simp add: map_of_eq_None_iff)
  with n show ?thesis by auto
qed

lemma observe_views: "observe_state e (views sd) = shared_state (shm e) sd"
  by (induction sd) (auto simp: observe_state_def views_def shared_state_def)

lemma views_keys: "map fst (views sd) = map fst sd"
  by (induction sd) (auto simp: views_def)

lemma get_full_state_reads:
  "\<exists>m. fst (get_full_state h) = Inr (RFull m) \<and> map fst m = map fst (state_dict h) \<and>
       observe (snd (get_full_state h)) (RFull m) =
         SFull (map (\<lambda>q. (fst q, shared_state (shm h) (snd q))) (state_dict h))"
proof (cases "copy_state h")
  case True
  let ?r = "RFull (owned_full (length (heap h)) (state_dict h))"
  let ?e1 = "h\<lparr>heap := heap h @ full_values (shm h) (state_dict h)\<rparr>"
  from True have g: "get_full_state h = (Inr ?r, ?e1)"
    by (simp add: get_full_state_eq)
  from get_full_state_private[OF True g] have "observe ?e1 ?r = live ?e1 ?r"
    by (simp add: private_copy_def)
  with g show ?thesis
    by (simp add: owned_full_keys)
next
  case False
  have "map (\<lambda>q. (fst q, observe_state h (snd q))) (map (\<lambda>(n, sd). (n, views sd)) (state_dict h)) =
        map (\<lambda>q. (fst q, shared_state (shm h) (snd q))) (state_dict h)"
    by (induction "state_dict h") (auto simp: observe_views split_def)
  with False show ?thesis
    by (simp add: get_full_state_eq split_def comp_def)
qed

lemma spec_reward_terminal_shm:
  "shm e1 = shm e2 \<Longrightarrow> spec_reward_terminal e1 sd = spec_reward_terminal e2 sd"
  by (cases "task_sensors sd") (simp_all add: spec_reward_terminal_def)

lemma get_single_state_reads:
  assumes "main_agent h = Some n" and "map_of (state_dict h) n = Some sd"
    and "\<forall>p \<in> set sd. contains ''Task'' (fst p) \<longrightarrow> 2 \<le> length (sensor_mem (shm h) (snd p))"
  shows "\<exists>st. fst (get_single_state h) =
              Inr (RSingle st (fst (spec_reward_terminal h sd)) (snd (spec_reward_terminal h sd))) \<and>
            map fst st = map fst sd \<and>
            observe_state (snd (get_single_state h)) st = shared_state (shm h) sd"
proof -
  have t: "task_scan h sd (None, None) = Inr (spec_reward_terminal h sd)"
    using task_scan_last[OF assms(3), of "(None, None)"]
    by (simp add: spec_reward_terminal_def)
  obtain rw tm where rt: "spec_reward_terminal h sd = (rw, tm)"
    by (cases "spec_reward_terminal h sd")
  show ?thesis
  proof (cases "copy_state h")
    case True
    let ?e1 = "h\<lparr>heap := heap h @ block_values (shm h) sd\<rparr>"
    have "heap ?e1 = heap h @ block_values (shm h) sd @ []" by simp
    from observe_copy_sensors[OF this]
    have "observe_state ?e1 (owned_from (length (heap h)) (map fst sd)) = shared_state (shm h) sd" .
    with True assms(1,2) t rt show ?thesis
      by (simp add: get_single_state_def create_copy_sensors_eq ok_def owned_from_keys)
  next
    case False
    with assms(1,2) t rt show ?thesis
      by (simp add: get_single_state_def ok_def observe_views views_keys)
  qed
qed

lemma reapplied_fields:
  "state_dict (reapplied eng e) = state_dict e"
  "main_agent (reapplied eng e) = main_agent e"
  "default_single (reapplied eng e) = default_single e"
  "shm (reapplied eng e) = shm (snd (reset eng e))"
  by (simp_all add: reapplied_def settled_fields reset_after(4))

lemma reset_without_ticks:
  assumes "pre_start_steps e < 0"
  shows "handoffs (snd (reset eng e)) = handoffs e"
    and "shm (snd (reset eng e)) = (shm e)\<lparr>reset_flag := True\<rparr>"
proof -
  from assms have "nat (pre_start_steps e + 1) = 0" by simp
  then show "handoffs (snd (reset eng e)) = handoffs e"
    and "shm (snd (reset eng e)) = (shm e)\<lparr>reset_flag := True\<rparr>"
    by (simp_all add: reset_after settled_def)
qed

lemma reset_returns_full:
  assumes "\<not> default_single e"
  shows "\<exists>m. fst (reset eng e) = Inr (RFull m) \<and> map fst m = map fst (state_dict e) \<and>
            observe (snd (reset eng e)) (RFull m) =
              SFull (map (\<lambda>q. (fst q, shared_state (shm (snd (reset eng e))) (snd q)))
                       (state_dict e))"
proof -
  from assms have r: "reset eng e = get_full_state (reapplied eng e)"
    by (simp add: reset_eq default_state_fn_def reapplied_fields)
  from get_full_state_reads[of "reapplied eng e"] show ?thesis
    by (simp add: r[symmetric] reapplied_fields)
qed

lemma reset_returns_single:
  assumes "default_single e" and "main_agent e = Some n" and "map_of (state_dict e) n = Some sd"
    and "\<forall>p \<in> set sd. contains ''Task'' (fst p) \<longrightarrow>
           2 \<le> length (sensor_mem (shm (snd (reset eng e))) (snd p))"
  shows "\<exists>st. fst (reset eng e) =
              Inr (RSingle st (fst (spec_reward_terminal (snd (reset eng e)) sd))
                     (snd (spec_reward_terminal (snd (reset eng e)) sd))) \<and>
            map fst st = map fst sd \<and>
            observe_state (snd (reset eng e)) st = shared_state (shm (snd (reset eng e))) sd"
proof -
  let ?R = "reapplied eng e"
  from assms(1) have r: "reset eng e = get_single_state ?R"
    by (simp add: reset_eq default_state_fn_def reapplied_fields)
  have m: "main_agent ?R = Some n" and s: "map_of (state_dict ?R) n = Some sd"
    using assms(2,3) by (simp_all add: reapplied_fields)
  have b: "\<forall>p \<in> set sd. contains ''Task'' (fst p) \<longrightarrow> 2 \<le> length (sensor_mem (shm ?R) (snd p))"
    using assms(4) by (simp add: reapplied_fields)
  have t: "spec_reward_terminal ?R sd = spec_reward_terminal (snd (reset eng e)) sd"
    by (rule spec_reward_terminal_shm) (simp add: reapplied_fields)
  from get_single_state_reads[OF m s b] show ?thesis
    by (simp add: r[symmetric] t reapplied_fields)
qed

lemma step_after_reset:
  assumes "main_agent e = Some n"
  shows "step eng a (snd (reset eng' e)) =
           get_single_state (handshake eng (agent_act n a (snd (reset eng' e))))"
  using assms by (simp add: step_eq reset_fields)

lemma tick_after_reset:
  "tick eng (snd (reset eng' e)) = get_full_state (handshake eng (snd (reset eng' e)))"
  by (simp add: tick_eq reset_fields)

lemma pair_env_memory:
  "state_dict pair_env =
     [(''uav0'', [(''RGBCamera'', (''uav0'', ''RGBCamera'')), (''TaskSensor'', (''uav0'', ''TaskSensor''))]),
      (''sphere0'', [(''LocationSensor'', (''sphere0'', ''LocationSensor''))])]"
  "sensor_mem (shm (snd (reset counting_engine pair_env))) b = [4, 4]"
  by (simp_all add: reset_after(4) settled_def counting_settle pair_env_def init_def Let_def
        client_acquire_def sphere_def uav_def build_agent_def counting_engine_def zero_memory_def)

lemma registered_agent_untouched:
  assumes "e = run eng cs (init eng' ds0 p c mem)"
    and "map_of (agents e) n = Some a"
    and "def_name d = n"
  shows "distinct (map fst (agents e)) \<and>
         distinct (map fst (agents (snd (exec eng call e)))) \<and>
         map_of (agents (add_agents ds e)) n = Some a \<and>
         map_of (state_dict (add_agents ds e)) n = map_of (state_dict e) n \<and>
         add_agents [d] e = e\<lparr>stdout := stdout e @ [AgentNameDuplicate]\<rparr> \<and>
         spawn_agent d location e =
           (Inr RNone,
            e\<lparr>stdout := stdout e @ [AgentNameDuplicate],
              command_queue := command_queue e @ [SpawnAgentCommand location n (def_type d)],
              main_agent := (case main_agent e of None \<Rightarrow> Some n | Some m \<Rightarrow> Some m)\<rparr>)"
proof -
  have d1: "distinct (map fst (agents e))"
    using assms(1) by (simp add: reachable_distinct)
  have d2: "distinct (map fst (agents (snd (exec eng call e))))"
    using keeps_exec[of e eng call] d1 by (simp add: keeps_def)
  have u: "map_of (agents (add_agents ds e)) n = Some a \<and>
           map_of (state_dict (add_agents ds e)) n = map_of (state_dict e) n"
    by (rule add_agents_untouched[OF assms(2)])
  have a: "add_agents [d] e = e\<lparr>stdout := stdout e @ [AgentNameDuplicate]\<rparr>"
    using assms(2,3) by (simp add: print_def)
  have s: "spawn_agent d location e =
           (Inr RNone,
            e\<lparr>stdout := stdout e @ [AgentNameDuplicate],
              command_queue := command_queue e @ [SpawnAgentCommand location n (def_type d)],
              main_agent := (case main_agent e of None \<Rightarrow> Some n | Some m \<Rightarrow> Some m)\<rparr>)"
    using assms(2,3)
    by (cases "main_agent e")
       (simp_all add: spawn_agent_def Let_def ok_def enqueue_command_def print_def)
  from d1 d2 u a s show ?thesis by blast
qed

section \<open>Ordering: step and tick before the first reset\<close>

text \<open>
  Claim C1. On an environment on which \<^verbatim>\<open>reset()\<close> has never been called (any history
  \<open>cs\<close> of calls since construction that holds no \<open>Reset\<close>, exceptions caught or
  not), the flag \<^verbatim>\<open>_initial_reset\<close> is still false, and \<^verbatim>\<open>step(action)\<close> and \<^verbatim>\<open>tick()\<close>
  raise the \<^verbatim>\<open>HolodeckException\<close> that tells the caller to call reset first. The
  environment after the raise is the environment before it: the command queue, the
  agents, the reset flag in shared memory and the trace of handoffs to the engine
  are all unchanged, so nothing was flushed and no handshake took place.
\<close>

theorem step_tick_before_reset:
  assumes "Reset \<notin> set cs" and "e = run eng' cs (init eng' ds p c mem)"
  shows "\<not> initial_reset e \<and>
         step eng a e = (Inl (HolodeckException ''You must call .reset() before .step()''), e) \<and>
         tick eng e = (Inl (HolodeckException ''You must call .reset() before .tick()''), e)"
proof -
  from assms have "\<not> initial_reset e"
    by (simp add: flag_run flag_init)
  then show ?thesis
    by (simp add: step_def tick_def raise_def)
qed

theorem step_tick_before_reset_witness:
  "Reset \<notin> set [Act ''uav0'' [1], SetFogDensity (Finite (1 / 2)), SpawnAgent uav [0, 0, 0]] \<and>
   fst (tick idle_engine
          (run idle_engine [Act ''uav0'' [1], SetFogDensity (Finite (1 / 2)), SpawnAgent uav [0, 0, 0]]
             (init idle_engine [uav] 2 True zero_memory))) =
     Inl (HolodeckException ''You must call .reset() before .tick()'') \<and>
   fst (step idle_engine [1]
          (run idle_engine [Act ''uav0'' [1], SetFogDensity (Finite (1 / 2)), SpawnAgent uav [0, 0, 0]]
             (init idle_engine [uav] 2 True zero_memory))) =
     Inl (HolodeckException ''You must call .reset() before .step()'')"
proof -
  let ?cs = "[Act ''uav0'' [1], SetFogDensity (Finite (1 / 2)), SpawnAgent uav [0, 0, 0]]"
  have no: "Reset \<notin> set ?cs" by simp
  from step_tick_before_reset[OF no refl,
      where eng = idle_engine and eng' = idle_engine and ds = "[uav]" and p = 2 and c = True
        and mem = zero_memory and a = "[1]"]
  show ?thesis using no by (simp del: run.simps)
qed

section \<open>The single-agent state: reward and terminal\<close>

text \<open>
  Claim C5. \<^verbatim>\<open>_get_single_state\<close> (the extraction \<^verbatim>\<open>step\<close> and \<^verbatim>\<open>reset\<close> return for a
  single agent) reads reward and terminal from the last sensor of the main agent, in
  the iteration order of its state dictionary, whose identifier contains the marker
  \<^verbatim>\<open>Task\<close>: reward is element 0 of that sensor's buffer and terminal is
  \<open>(element 1 = 1)\<close>; when no sensor of the agent matches, both are \<^verbatim>\<open>None\<close>.
  \<open>spec_reward_terminal\<close> is that reading, written from the claim's words. The
  hypotheses say that the main agent is registered in the state dictionary and that
  every Task buffer has its two elements (a shorter one raises \<open>IndexError\<close>).
\<close>

theorem single_state_reward_terminal:
  assumes "main_agent e = Some n"
    and "map_of (state_dict e) n = Some sd"
    and "\<forall>p \<in> set sd. contains ''Task'' (fst p) \<longrightarrow> 2 \<le> length (sensor_mem (shm e) (snd p))"
  shows "fst (get_single_state e) =
           Inr (RSingle (if copy_state e then owned_from (length (heap e)) (map fst sd) else views sd)
                  (fst (spec_reward_terminal e sd)) (snd (spec_reward_terminal e sd))) \<and>
         (task_sensors sd = [] \<longrightarrow> spec_reward_terminal e sd = (None, None))"
proof -
  have "task_scan e sd (None, None) = Inr (spec_reward_terminal e sd)"
    using task_scan_last[OF assms(3), of "(None, None)"]
    by (simp add: spec_reward_terminal_def)
  with assms(1,2) show ?thesis
    by (cases "spec_reward_terminal e sd")
       (simp add: get_single_state_def create_copy_sensors_eq ok_def spec_reward_terminal_def)
qed

theorem single_state_reward_terminal_witness:
  "fst (get_single_state uav_env) =
     Inr (RSingle [(''RGBCamera'', Owned 0), (''TaskSensor'', Owned 1)] (Some 1) (Some True)) \<and>
   fst (get_single_state sphere_env) =
     Inr (RSingle [(''LocationSensor'', Shared (''sphere0'', ''LocationSensor''))] None None)"
proof -
  let ?sd = "[(''RGBCamera'', (''uav0'', ''RGBCamera'')), (''TaskSensor'', (''uav0'', ''TaskSensor''))]"
  let ?sd' = "[(''LocationSensor'', (''sphere0'', ''LocationSensor''))]"
  have m: "map_of (state_dict uav_env) ''uav0'' = Some ?sd"
    by (simp add: uav_env_fields)
  have b: "\<forall>p \<in> set ?sd. contains ''Task'' (fst p) \<longrightarrow> 2 \<le> length (sensor_mem (shm uav_env) (snd p))"
    by (simp add: uav_env_fields)
  have m': "map_of (state_dict sphere_env) ''sphere0'' = Some ?sd'"
    by (simp add: sphere_env_fields)
  have b': "\<forall>p \<in> set ?sd'. contains ''Task'' (fst p) \<longrightarrow> 2 \<le> length (sensor_mem (shm sphere_env) (snd p))"
    by simp
  from single_state_reward_terminal[OF uav_env_fields(1) m b]
    single_state_reward_terminal[OF sphere_env_fields(1) m' b']
  show ?thesis
    by (simp add: uav_env_fields sphere_env_fields spec_reward_terminal_def task_sensors_def
          views_def)
qed

section \<open>Acting without ticking\<close>

text \<open>
  Claim C10. \<^verbatim>\<open>act(agent_name, action)\<close> looks the name up among the registered agents
  first: an unknown name raises at once (Python's \<open>KeyError\<close> from the dictionary
  lookup) and leaves the environment as it was. For a registered agent the action is
  recorded in that agent's action buffer, where the engine finds it at the next
  handoff. \<^verbatim>\<open>act\<close> itself performs no handshake (the trace of handoffs is unchanged)
  and flushes nothing: the command queue, the command buffer, the sensor blocks and
  the reset flag are unchanged.
\<close>

theorem act_validates_and_records:
  "act name action e =
     (case map_of (agents e) name of
        None \<Rightarrow> (Inl (KeyError name), e)
      | Some a \<Rightarrow>
          (Inr RNone,
           e\<lparr>shm := (shm e)\<lparr>action_buffers := (action_buffers (shm e))(agent_name a := action)\<rparr>\<rparr>)) \<and>
   handoffs (snd (act name action e)) = handoffs e \<and>
   command_queue (snd (act name action e)) = command_queue e \<and>
   sensor_mem (shm (snd (act name action e))) = sensor_mem (shm e) \<and>
   command_buffer (shm (snd (act name action e))) = command_buffer (shm e) \<and>
   reset_flag (shm (snd (act name action e))) = reset_flag (shm e)"
  by (cases "map_of (agents e) name") (simp_all add: act_def raise_def ok_def agent_act_def)

theorem act_validates_and_records_witness:
  "fst (act ''ghost'' [1] uav_env) = Inl (KeyError ''ghost'') \<and>
   snd (act ''ghost'' [1] uav_env) = uav_env \<and>
   action_buffers (shm (snd (act ''uav0'' [1] uav_env))) ''uav0'' = [1] \<and>
   handoffs (snd (act ''uav0'' [1] uav_env)) = []"
  using act_validates_and_records[of "''ghost''" "[1]" uav_env]
        act_validates_and_records[of "''uav0''" "[1]" uav_env]
  by (simp add: uav_env_fields build_agent_def uav_def)

section \<open>After reset: the command queue and the reset flag\<close>

text \<open>
  Claim C2, as amended. \<^verbatim>\<open>reset()\<close> clears the queue before its ticks, but after the
  ticks it re-applies the capture rate of every agent with a camera, and each
  re-application enqueues a command. So when \<^verbatim>\<open>reset()\<close> returns the command queue
  holds exactly those commands (\<open>reapplied_commands\<close>: one \<^verbatim>\<open>RGBCameraRateCommand\<close>
  per agent that has a camera and a valid stored rate, in the order of the agents);
  it is empty when no agent has a camera. \<^verbatim>\<open>reset()\<close> writes true to the reset flag
  before the first settling tick, so for \<open>pre_start_steps \<ge> 0\<close> the engine is handed
  a true flag at that tick. Nothing in the controller ever writes false to the
  cell: its value after \<^verbatim>\<open>reset()\<close> is what the engine left there, and with an engine
  that does not write the cell it is still true.

  The counterexample is the environment of one agent with a camera, whose capture
  rate was set to 5 by \<^verbatim>\<open>set_ticks_per_capture\<close>, with an engine that only rewrites
  sensor values: after \<^verbatim>\<open>reset()\<close> the queue holds the re-applied command and the
  flag is true.
\<close>

theorem reset_queue_and_flag:
  "command_queue (snd (reset eng e)) = reapplied_commands (agents e) (map fst (agents e)) \<and>
   ((\<forall>n a. map_of (agents e) n = Some a \<longrightarrow> \<not> has_camera a) \<longrightarrow>
      command_queue (snd (reset eng e)) = []) \<and>
   (0 \<le> pre_start_steps e \<longrightarrow>
      reset_flag (handoffs (snd (reset eng e)) ! length (handoffs e))) \<and>
   ((\<forall>s. reset_flag (eng s) = reset_flag s) \<longrightarrow> reset_flag (shm (snd (reset eng e))))"
  by (simp add: reset_after(1) reapplied_commands_none reset_first_handoff reset_flag_kept)

theorem reset_queue_and_flag_witness:
  "command_queue (snd (reset counting_engine uav_env)) = [RGBCameraRateCommand ''uav0'' (PyInt 1)] \<and>
   reset_flag (handoffs (snd (reset counting_engine uav_env)) ! 0) \<and>
   reset_flag (shm (snd (reset counting_engine uav_env))) \<and>
   command_queue (snd (reset counting_engine sphere_env)) = []"
proof -
  from reset_queue_and_flag[of counting_engine sphere_env] sphere_no_camera
  have "command_queue (snd (reset counting_engine sphere_env)) = []"
    by blast
  with reset_queue_and_flag[of counting_engine uav_env, unfolded uav_reapplied]
    counting_engine_flag
  show ?thesis
    by (simp add: uav_env_fields(10,11))
qed

theorem reset_queue_and_flag_counterexample:
  "command_queue (snd (reset counting_engine tuned_env)) =
     [RGBCameraRateCommand ''uav0'' (PyInt 5)] \<and>
   reset_flag (shm (snd (reset counting_engine tuned_env)))"
  by (simp add: reset_after(1) tuned_reapplied reset_flag_kept[OF counting_engine_flag])

section \<open>Copy mode: returned states are not aliased\<close>

text \<open>
  Claim C6. With \<^verbatim>\<open>copy_state=True\<close>, the state a successful \<^verbatim>\<open>tick()\<close> or
  \<^verbatim>\<open>step(a)\<close> returns is a deep copy: every array in it is an owned array allocated
  during that call (its address lies between the heap's length before and after the
  call), and at the moment of the return it holds what the shared block it copies
  holds (\<open>observe\<close> reads the returned structure through the heap, \<open>live\<close> reads
  the same shape from shared memory). Whatever calls \<open>cs\<close> follow, with whatever
  engine (in particular one more \<^verbatim>\<open>tick()\<close> or \<^verbatim>\<open>step()\<close>), every array of the
  structure reads as it did when it was returned.

  In the witness the engine adds one to every sensor value at each tick: the state
  returned by a tick still reads 5 after the next tick, while the shared memory
  reads 6.
\<close>

theorem copy_mode_no_aliasing:
  assumes "copy_state e" and "c = Tick \<or> c = Step a" and "exec eng c e = (Inr r, e1)"
  shows "(\<forall>x \<in> set (arrays_of r). \<exists>i. x = Owned i \<and> length (heap e) \<le> i \<and> i < length (heap e1)) \<and>
         observe e1 r = live e1 r \<and>
         (\<forall>x \<in> set (arrays_of r). read_array (run eng' cs e1) x = read_array e1 x) \<and>
         observe (run eng' cs e1) r = observe e1 r"
proof -
  from assms have p: "private_copy e r e1"
    by (auto simp: tick_private step_private)
  have k: "prefix (heap e1) (heap (run eng' cs e1))"
    using keeps_run[of e1 eng' cs] by (simp add: keeps_def)
  have s: "\<forall>x \<in> set (arrays_of r). read_array (run eng' cs e1) x = read_array e1 x"
  proof
    fix x assume "x \<in> set (arrays_of r)"
    with p obtain i where "x = Owned i" "i < length (heap e1)"
      by (auto simp: private_copy_def)
    with read_owned_stable[OF k] show "read_array (run eng' cs e1) x = read_array e1 x"
      by simp
  qed
  from p s observe_cong[OF s] show ?thesis
    by (simp add: private_copy_def)
qed

theorem copy_mode_no_aliasing_witness:
  "observe (run counting_engine [Tick] (snd (tick counting_engine ready_env)))
     (RFull [(''uav0'', [(''RGBCamera'', Owned (length (heap ready_env))),
                         (''TaskSensor'', Owned (Suc (length (heap ready_env))))])]) =
     SFull [(''uav0'', [(''RGBCamera'', [5, 5]), (''TaskSensor'', [5, 5])])] \<and>
   live (run counting_engine [Tick] (snd (tick counting_engine ready_env)))
     (RFull [(''uav0'', [(''RGBCamera'', Owned (length (heap ready_env))),
                         (''TaskSensor'', Owned (Suc (length (heap ready_env))))])]) =
     SFull [(''uav0'', [(''RGBCamera'', [6, 6]), (''TaskSensor'', [6, 6])])] \<and>
   observe (run counting_engine [Step [2]] (snd (step counting_engine [1] ready_env)))
     (RSingle [(''RGBCamera'', Owned (length (heap ready_env))),
               (''TaskSensor'', Owned (Suc (length (heap ready_env))))] (Some 5) (Some False)) =
     SSingle [(''RGBCamera'', [5, 5]), (''TaskSensor'', [5, 5])] (Some 5) (Some False)"
proof -
  let ?r = "RFull [(''uav0'', [(''RGBCamera'', Owned (length (heap ready_env))),
                               (''TaskSensor'', Owned (Suc (length (heap ready_env))))])]"
  let ?e1 = "snd (tick counting_engine ready_env)"
  let ?r' = "RSingle [(''RGBCamera'', Owned (length (heap ready_env))),
               (''TaskSensor'', Owned (Suc (length (heap ready_env))))] (Some 5) (Some False)"
  let ?e1' = "snd (step counting_engine [1] ready_env)"
  have x: "exec counting_engine Tick ready_env = (Inr ?r, ?e1)"
    using ready_tick by simp
  have c: "Tick = Tick \<or> Tick = Step []" by simp
  from copy_mode_no_aliasing[OF ready_env_fields(2) c x, of counting_engine "[Tick]"]
  have "observe (run counting_engine [Tick] ?e1) ?r = live ?e1 ?r"
    by simp
  moreover have "live ?e1 ?r = SFull [(''uav0'', [(''RGBCamera'', [5, 5]), (''TaskSensor'', [5, 5])])]"
    by (simp add: ready_tick_fields ready_env_fields shared_state_def)
  moreover have "live (run counting_engine [Tick] ?e1) ?r =
      SFull [(''uav0'', [(''RGBCamera'', [6, 6]), (''TaskSensor'', [6, 6])])]"
    by (simp add: tick_eq[of _ ?e1] get_full_state_eq handshake_eq ready_tick_fields
          ready_env_fields shared_state_def counting_engine_def)
  moreover have x': "exec counting_engine (Step [1]) ready_env = (Inr ?r', ?e1')"
    using ready_step by simp
  have c': "Step [1] = Tick \<or> Step [1] = Step [1]" by simp
  from copy_mode_no_aliasing[OF ready_env_fields(2) c' x', of counting_engine "[Step [2]]"]
  have "observe (run counting_engine [Step [2]] ?e1') ?r' = live ?e1' ?r'"
    by simp
  moreover have "live ?e1' ?r' =
      SSingle [(''RGBCamera'', [5, 5]), (''TaskSensor'', [5, 5])] (Some 5) (Some False)"
    by (simp add: ready_step_fields ready_env_fields shared_state_def)
  ultimately show ?thesis by simp
qed

section \<open>Teleport and set_state\<close>

text \<open>
  Claim C4. On the initialized one-agent environment \<open>ready_env\<close> (the example
  environment after \<^verbatim>\<open>reset()\<close>), \<^verbatim>\<open>teleport("uav0", [1, 2, 3], None)\<close> enqueues the
  override and performs one tick that flushes it (the command buffer handed to the
  engine ends with the override), but the call returns \<^verbatim>\<open>None\<close>: the state the tick
  read is dropped. \<^verbatim>\<open>set_state\<close> on the same environment flushes its override in the
  same way and returns the full state mapping of that tick.
  The lemmas \<open>teleport_ticks\<close> and \<open>set_state_ticks\<close> state the same for every
  initialized environment and registered agent.
\<close>

theorem teleport_returns_none:
  "fst (teleport counting_engine ''uav0'' (Some [1, 2, 3]) None ready_env) = Inr RNone \<and>
   command_buffer (last (handoffs
     (snd (teleport counting_engine ''uav0'' (Some [1, 2, 3]) None ready_env)))) =
     [RGBCameraRateCommand ''uav0'' (PyInt 1), TeleportOverride ''uav0'' (Some [1, 2, 3]) None] \<and>
   (\<exists>m. fst (set_state counting_engine ''uav0'' [1, 2, 3] [0, 0, 0] [0, 0, 0] [0, 0, 0] ready_env) =
      Inr (RFull m)) \<and>
   command_buffer (last (handoffs
     (snd (set_state counting_engine ''uav0'' [1, 2, 3] [0, 0, 0] [0, 0, 0] [0, 0, 0] ready_env)))) =
     [RGBCameraRateCommand ''uav0'' (PyInt 1),
      StateOverride ''uav0'' [1, 2, 3] [0, 0, 0] [0, 0, 0] [0, 0, 0]]"
  using teleport_ticks[OF ready_env_fields(1) ready_agent, of counting_engine "Some [1, 2, 3]" None]
        set_state_ticks(2,3)[OF ready_env_fields(1) ready_agent,
          of counting_engine "[1, 2, 3]" "[0, 0, 0]" "[0, 0, 0]" "[0, 0, 0]"]
  by (simp add: ready_queue build_agent_def uav_def)

section \<open>The soft error channel\<close>

text \<open>
  Claim C8. In every environment reachable from construction, \<^verbatim>\<open>set_sensor_enabled\<close>
  raises \<open>AttributeError\<close> for every agent name, known or unknown, and changes
  nothing: it reads the attribute \<^verbatim>\<open>_sensor_map\<close>, which no line of the class assigns.
  It neither prints the warning nor enqueues a command. The other two setters of the
  claim do warn and skip, as the lemma \<open>soft_error_setters\<close> shows.
\<close>

theorem set_sensor_enabled_raises:
  "set_sensor_enabled n s b (run eng cs (init eng' ds p c mem)) =
     (Inl (AttributeError ''_sensor_map''), run eng cs (init eng' ds p c mem))"
  by (simp add: set_sensor_enabled_def reachable_config raise_def)

theorem set_sensor_enabled_raises_witness:
  "fst (set_sensor_enabled ''ghost'' ''RGBCamera'' True uav_env) = Inl (AttributeError ''_sensor_map'') \<and>
   stdout (snd (set_sensor_enabled ''ghost'' ''RGBCamera'' True uav_env)) = [] \<and>
   fst (set_control_scheme ''ghost'' 1 uav_env) = Inr RNone \<and>
   stdout (snd (set_control_scheme ''ghost'' 1 uav_env)) = [NoSuchAgent ''ghost'']"
  using set_sensor_enabled_raises[of "''ghost''" "''RGBCamera''" True idle_engine "[]"
      counting_engine "[uav]" 2 True zero_memory]
  by (simp add: uav_env_def[symmetric] uav_env_fields soft_error_setters(3))

section \<open>What reset does and returns\<close>

text \<open>
  Claim C3. In an environment \<open>e\<close> reachable from construction with
  \<open>pre_start_steps = p\<close>, \<^verbatim>\<open>reset()\<close> marks the environment initialized and performs
  \<open>nat (p + 1)\<close> handshakes, that is exactly \<open>p + 1\<close> ticks for every \<open>p \<ge> 0\<close>.
  The first of them hands the engine the shared memory with the reset flag set to
  true and an empty command buffer: the flag was set and the queue cleared before the
  first tick, and every flush during the reset is empty (what was pending is
  discarded, not sent). For \<open>p < 0\<close> there is no tick and the flag stands true in
  shared memory. Afterwards the capture rate of every agent with a camera is
  re-applied: the agents are unchanged, the queue holds the re-applied commands (one
  for every agent with a camera whose stored rate is a positive integer) and an
  invalid stored rate is reported by a printed warning.

  The value returned is the default state function applied to the resulting
  environment, and its shape is fixed by the number of agents registered at
  construction (a later spawn does not change it).
  When that number is one, the main agent is registered with a state dictionary
  \<open>sd\<close>, \<^verbatim>\<open>step\<close> on the environment after the reset returns through the same
  \<^verbatim>\<open>_get_single_state\<close>, and \<^verbatim>\<open>reset()\<close> returns the 4-tuple: a state with the sensors
  of \<open>sd\<close> whose arrays read what the shared blocks hold after the last settling
  tick, and the reward and terminal of the last Task sensor there
  (\<open>spec_reward_terminal\<close>). The one hypothesis of this part is that the extraction
  does not raise: every Task block holds its two elements after the last tick.
  Otherwise \<^verbatim>\<open>reset()\<close> returns, as \<^verbatim>\<open>tick\<close> does, the full mapping: one entry for
  every agent of the state dictionary, whose arrays read what the shared blocks hold
  after the last settling tick.
\<close>

theorem reset_settles_and_returns:
  assumes "e = run eng' cs (init eng'' ds p c mem)"
  shows "initial_reset (snd (reset eng e)) \<and>
    length (handoffs (snd (reset eng e))) = length (handoffs e) + nat (p + 1) \<and>
    (0 \<le> p \<longrightarrow>
       int (length (handoffs (snd (reset eng e))) - length (handoffs e)) = p + 1 \<and>
       handoffs (snd (reset eng e)) ! length (handoffs e) =
         (shm e)\<lparr>reset_flag := True, command_buffer := []\<rparr>) \<and>
    (p < 0 \<longrightarrow>
       handoffs (snd (reset eng e)) = handoffs e \<and>
       shm (snd (reset eng e)) = (shm e)\<lparr>reset_flag := True\<rparr>) \<and>
    (\<forall>i < nat (p + 1).
       command_buffer (handoffs (snd (reset eng e)) ! (length (handoffs e) + i)) = []) \<and>
    agents (snd (reset eng e)) = agents e \<and>
    command_queue (snd (reset eng e)) = reapplied_commands (agents e) (map fst (agents e)) \<and>
    stdout (snd (reset eng e)) = stdout e @ reapplied_warnings (agents e) (map fst (agents e)) \<and>
    (\<forall>n a. map_of (agents e) n = Some a \<and> has_camera a \<and> \<not> invalid_rate (ticks_per_capture a) \<longrightarrow>
       RGBCameraRateCommand n (ticks_per_capture a) \<in> set (command_queue (snd (reset eng e)))) \<and>
    default_single e = (length (agents (init eng'' ds p c mem)) = 1) \<and>
    reset eng e = default_state_fn (reapplied eng e) \<and>
    (default_single e \<longrightarrow>
       (\<exists>n sd. main_agent e = Some n \<and> map_of (state_dict e) n = Some sd \<and>
          (\<forall>a. step eng a (snd (reset eng e)) =
                 get_single_state (handshake eng (agent_act n a (snd (reset eng e))))) \<and>
          ((\<forall>p \<in> set sd. contains ''Task'' (fst p) \<longrightarrow>
               2 \<le> length (sensor_mem (shm (snd (reset eng e))) (snd p))) \<longrightarrow>
           (\<exists>st. fst (reset eng e) =
                    Inr (RSingle st (fst (spec_reward_terminal (snd (reset eng e)) sd))
                           (snd (spec_reward_terminal (snd (reset eng e)) sd))) \<and>
                  map fst st = map fst sd \<and>
                  observe_state (snd (reset eng e)) st =
                    shared_state (shm (snd (reset eng e))) sd)))) \<and>
    (\<not> default_single e \<longrightarrow>
       tick eng (snd (reset eng e)) = get_full_state (handshake eng (snd (reset eng e))) \<and>
       (\<exists>m. fst (reset eng e) = Inr (RFull m) \<and> map fst m = map fst (state_dict e) \<and>
            observe (snd (reset eng e)) (RFull m) =
              SFull (map (\<lambda>q. (fst q, shared_state (shm (snd (reset eng e))) (snd q)))
                       (state_dict e))))"
proof -
  have p: "pre_start_steps e = p"
    using assms by (simp add: reachable_config)
  have c1: "initial_reset (snd (reset eng e))"
    by (rule reset_fields(1))
  have c2: "length (handoffs (snd (reset eng e))) = length (handoffs e) + nat (p + 1)"
    using reset_handoffs_length[of eng e] p by simp
  have c3: "0 \<le> p \<longrightarrow>
       int (length (handoffs (snd (reset eng e))) - length (handoffs e)) = p + 1 \<and>
       handoffs (snd (reset eng e)) ! length (handoffs e) =
         (shm e)\<lparr>reset_flag := True, command_buffer := []\<rparr>"
    using c2 reset_first_handoff[of e eng] p by simp
  have c3b: "p < 0 \<longrightarrow>
       handoffs (snd (reset eng e)) = handoffs e \<and>
       shm (snd (reset eng e)) = (shm e)\<lparr>reset_flag := True\<rparr>"
    using reset_without_ticks[of e eng] p by simp
  have c4: "\<forall>i < nat (p + 1).
       command_buffer (handoffs (snd (reset eng e)) ! (length (handoffs e) + i)) = []"
    using reset_flushes_empty[of _ e eng] p by simp
  have c5: "agents (snd (reset eng e)) = agents e"
    by (rule reset_fields(3))
  have c6: "command_queue (snd (reset eng e)) = reapplied_commands (agents e) (map fst (agents e))"
    by (rule reset_after(1))
  have c7: "stdout (snd (reset eng e)) = stdout e @ reapplied_warnings (agents e) (map fst (agents e))"
    by (rule reset_after(2))
  have c8: "\<forall>n a. map_of (agents e) n = Some a \<and> has_camera a \<and> \<not> invalid_rate (ticks_per_capture a) \<longrightarrow>
       RGBCameraRateCommand n (ticks_per_capture a) \<in> set (command_queue (snd (reset eng e)))"
  proof (intro allI impI)
    fix n a
    assume h: "map_of (agents e) n = Some a \<and> has_camera a \<and> \<not> invalid_rate (ticks_per_capture a)"
    then have "n \<in> set (map fst (agents e))"
      by (auto dest: map_of_SomeD intro: rev_image_eqI)
    with h show "RGBCameraRateCommand n (ticks_per_capture a) \<in> set (command_queue (snd (reset eng e)))"
      by (simp add: c6 reapplied_commands_member)
  qed
  have c9: "default_single e = (length (agents (init eng'' ds p c mem)) = 1)"
    using assms by (simp add: reachable_config)
  have c10: "reset eng e = default_state_fn (reapplied eng e)"
    by (rule reset_eq)
  have reg: "registered e"
    using assms by (simp add: reachable_registered)
  have c11: "default_single e \<longrightarrow>
       (\<exists>n sd. main_agent e = Some n \<and> map_of (state_dict e) n = Some sd \<and>
          (\<forall>a. step eng a (snd (reset eng e)) =
                 get_single_state (handshake eng (agent_act n a (snd (reset eng e))))) \<and>
          ((\<forall>p \<in> set sd. contains ''Task'' (fst p) \<longrightarrow>
               2 \<le> length (sensor_mem (shm (snd (reset eng e))) (snd p))) \<longrightarrow>
           (\<exists>st. fst (reset eng e) =
                    Inr (RSingle st (fst (spec_reward_terminal (snd (reset eng e)) sd))
                           (snd (spec_reward_terminal (snd (reset eng e)) sd))) \<and>
                  map fst st = map fst sd \<and>
                  observe_state (snd (reset eng e)) st =
                    shared_state (shm (snd (reset eng e))) sd)))"
  proof
    assume d: "default_single e"
    from registered_main[OF reg d] obtain n sd
      where n: "main_agent e = Some n" and sd: "map_of (state_dict e) n = Some sd"
      by blast
    have s: "\<forall>a. step eng a (snd (reset eng e)) =
                 get_single_state (handshake eng (agent_act n a (snd (reset eng e))))"
      using step_after_reset[OF n] by blast
    from n sd s reset_returns_single[OF d n sd, of eng]
    show "\<exists>n sd. main_agent e = Some n \<and> map_of (state_dict e) n = Some sd \<and>
          (\<forall>a. step eng a (snd (reset eng e)) =
                 get_single_state (handshake eng (agent_act n a (snd (reset eng e))))) \<and>
          ((\<forall>p \<in> set sd. contains ''Task'' (fst p) \<longrightarrow>
               2 \<le> length (sensor_mem (shm (snd (reset eng e))) (snd p))) \<longrightarrow>
           (\<exists>st. fst (reset eng e) =
                    Inr (RSingle st (fst (spec_reward_terminal (snd (reset eng e)) sd))
                           (snd (spec_reward_terminal (snd (reset eng e)) sd))) \<and>
                  map fst st = map fst sd \<and>
                  observe_state (snd (reset eng e)) st =
                    shared_state (shm (snd (reset eng e))) sd))"
      by blast
  qed
  have c12: "\<not> default_single e \<longrightarrow>
       tick eng (snd (reset eng e)) = get_full_state (handshake eng (snd (reset eng e))) \<and>
       (\<exists>m. fst (reset eng e) = Inr (RFull m) \<and> map fst m = map fst (state_dict e) \<and>
            observe (snd (reset eng e)) (RFull m) =
              SFull (map (\<lambda>q. (fst q, shared_state (shm (snd (reset eng e))) (snd q)))
                       (state_dict e)))"
    using reset_returns_full[of e eng] tick_after_reset[of eng eng e] by blast
  from c1 c2 c3 c3b c4 c5 c6 c7 c8 c9 c10 c11 c12 show ?thesis
    by (intro conjI)
qed

theorem reset_settles_and_returns_witness:
  "initial_reset (snd (reset counting_engine uav_env)) \<and>
   length (handoffs (snd (reset counting_engine uav_env))) = 3 \<and>
   reset_flag (handoffs (snd (reset counting_engine uav_env)) ! 0) \<and>
   command_buffer (handoffs (snd (reset counting_engine uav_env)) ! 0) = [] \<and>
   command_queue (snd (reset counting_engine uav_env)) = [RGBCameraRateCommand ''uav0'' (PyInt 1)] \<and>
   (\<exists>st. fst (reset counting_engine uav_env) = Inr (RSingle st (Some 4) (Some False)) \<and>
         observe_state (snd (reset counting_engine uav_env)) st =
           [(''RGBCamera'', [4, 4]), (''TaskSensor'', [4, 4])]) \<and>
   (\<exists>m. fst (reset counting_engine pair_env) = Inr (RFull m) \<and>
        map fst m = [''uav0'', ''sphere0''] \<and>
        observe (snd (reset counting_engine pair_env)) (RFull m) =
          SFull [(''uav0'', [(''RGBCamera'', [4, 4]), (''TaskSensor'', [4, 4])]),
                 (''sphere0'', [(''LocationSensor'', [4, 4])])])"
proof -
  let ?sd = "[(''RGBCamera'', (''uav0'', ''RGBCamera'')), (''TaskSensor'', (''uav0'', ''TaskSensor''))]"
  let ?e' = "snd (reset counting_engine uav_env)"
  have r: "uav_env = run idle_engine [] (init counting_engine [uav] 2 True zero_memory)"
    by (simp add: uav_env_def)
  have r': "pair_env = run idle_engine [] (init counting_engine [uav, sphere] 2 True zero_memory)"
    by (simp add: pair_env_def)
  note t = reset_settles_and_returns[OF r, of counting_engine]
  note t' = reset_settles_and_returns[OF r', of counting_engine]
  have mem: "\<And>b. sensor_mem (shm ?e') b = [4, 4]"
    using ready_env_fields(6) by (simp add: ready_env_def)
  from t have "default_single uav_env \<longrightarrow>
       (\<exists>n sd. main_agent uav_env = Some n \<and> map_of (state_dict uav_env) n = Some sd \<and>
          ((\<forall>p \<in> set sd. contains ''Task'' (fst p) \<longrightarrow> 2 \<le> length (sensor_mem (shm ?e') (snd p))) \<longrightarrow>
           (\<exists>st. fst (reset counting_engine uav_env) =
                    Inr (RSingle st (fst (spec_reward_terminal ?e' sd))
                           (snd (spec_reward_terminal ?e' sd))) \<and>
                  map fst st = map fst sd \<and>
                  observe_state ?e' st = shared_state (shm ?e') sd)))"
    by blast
  then obtain st where
    "fst (reset counting_engine uav_env) =
       Inr (RSingle st (fst (spec_reward_terminal ?e' ?sd)) (snd (spec_reward_terminal ?e' ?sd)))"
    and "observe_state ?e' st = shared_state (shm ?e') ?sd"
    by (auto simp: uav_env_fields mem)
  then have single: "\<exists>st. fst (reset counting_engine uav_env) = Inr (RSingle st (Some 4) (Some False)) \<and>
         observe_state ?e' st = [(''RGBCamera'', [4, 4]), (''TaskSensor'', [4, 4])]"
    by (simp add: spec_reward_terminal_def task_sensors_def shared_state_def mem)
  from t' have "\<not> default_single pair_env \<longrightarrow>
       (\<exists>m. fst (reset counting_engine pair_env) = Inr (RFull m) \<and>
            map fst m = map fst (state_dict pair_env) \<and>
            observe (snd (reset counting_engine pair_env)) (RFull m) =
              SFull (map (\<lambda>q. (fst q, shared_state (shm (snd (reset counting_engine pair_env))) (snd q)))
                       (state_dict pair_env)))"
    by blast
  then have full: "\<exists>m. fst (reset counting_engine pair_env) = Inr (RFull m) \<and>
        map fst m = [''uav0'', ''sphere0''] \<and>
        observe (snd (reset counting_engine pair_env)) (RFull m) =
          SFull [(''uav0'', [(''RGBCamera'', [4, 4]), (''TaskSensor'', [4, 4])]),
                 (''sphere0'', [(''LocationSensor'', [4, 4])])]"
    by (simp add: pair_env_fields(3) pair_env_memory shared_state_def)
  from t have "initial_reset ?e' \<and>
    length (handoffs ?e') = length (handoffs uav_env) + nat (2 + 1) \<and>
    (0 \<le> (2::int) \<longrightarrow>
       handoffs ?e' ! length (handoffs uav_env) =
         (shm uav_env)\<lparr>reset_flag := True, command_buffer := []\<rparr>) \<and>
    command_queue ?e' = reapplied_commands (agents uav_env) (map fst (agents uav_env))"
    by blast
  then have first: "initial_reset ?e' \<and> length (handoffs ?e') = 3 \<and>
     reset_flag (handoffs ?e' ! 0) \<and> command_buffer (handoffs ?e' ! 0) = [] \<and>
     command_queue ?e' = [RGBCameraRateCommand ''uav0'' (PyInt 1)]"
    by (simp add: uav_reapplied uav_env_fields(10))
  from first single full show ?thesis by blast
qed

section \<open>Fog density\<close>

text \<open>
  Claim C7. The density is a Python float. \<^verbatim>\<open>set_fog_density(float("nan"))\<close> passes
  the validation, because both comparisons of line 330 are false for NaN: the call
  returns \<^verbatim>\<open>None\<close> and enqueues the custom command \<^verbatim>\<open>SetFogDensity\<close> with parameter
  \<open>[NaN]\<close>, although NaN is not in \<open>[0, 1]\<close>. For every other density the call does
  what the claim says: a finite \<open>x\<close> with \<open>x < 0\<close> or \<open>x > 1\<close> and both infinities
  raise the validation error and leave the environment as it was, and a finite \<open>x\<close>
  in \<open>[0, 1]\<close> appends exactly one command, \<^verbatim>\<open>SetFogDensity\<close> with numeric parameters
  \<open>[x]\<close> and no string parameters.
\<close>

theorem set_fog_density_nan_enqueued:
  "set_fog_density NaN e =
     (Inr RNone, e\<lparr>command_queue := command_queue e @ [CustomCommand ''SetFogDensity'' [NaN] []]\<rparr>) \<and>
   set_fog_density (Finite x) e =
     (if x < 0 \<or> 1 < x
      then (Inl (HolodeckException ''Fog density should be between 0 and 1''), e)
      else (Inr RNone,
            e\<lparr>command_queue := command_queue e @ [CustomCommand ''SetFogDensity'' [Finite x] []]\<rparr>)) \<and>
   set_fog_density PosInf e = (Inl (HolodeckException ''Fog density should be between 0 and 1''), e) \<and>
   set_fog_density NegInf e = (Inl (HolodeckException ''Fog density should be between 0 and 1''), e)"
  by (simp add: set_fog_density_eq)

theorem set_fog_density_nan_enqueued_witness:
  "fst (set_fog_density NaN uav_env) = Inr RNone \<and>
   command_queue (snd (set_fog_density NaN uav_env)) = [CustomCommand ''SetFogDensity'' [NaN] []] \<and>
   command_queue (snd (set_fog_density (Finite (1 / 2)) uav_env)) =
     [CustomCommand ''SetFogDensity'' [Finite (1 / 2)] []] \<and>
   fst (set_fog_density (Finite (- (1 / 10))) uav_env) =
     Inl (HolodeckException ''Fog density should be between 0 and 1'') \<and>
   command_queue (snd (set_fog_density (Finite (- (1 / 10))) uav_env)) = []"
  using set_fog_density_nan_enqueued[of uav_env "1 / 2"]
        set_fog_density_nan_enqueued[of uav_env "- (1 / 10)"]
  by (simp add: uav_env_fields)

section \<open>Spawning under a name that is taken\<close>

text \<open>
  Claim C9. On the initialized example environment, whose one agent is \<^verbatim>\<open>uav0\<close>,
  \<^verbatim>\<open>spawn_agent\<close> with a definition named \<^verbatim>\<open>uav0\<close> prints
  \<^verbatim>\<open>Error: agent name duplicate.\<close> and leaves the agents and the state dictionary as
  they were, but it is not rejected: the call returns normally with a
  \<^verbatim>\<open>SpawnAgentCommand\<close> for \<^verbatim>\<open>uav0\<close> in the queue, and the next tick hands that command
  to the engine. The lemma \<open>registered_agent_untouched\<close> states the part of the claim
  that holds in every reachable environment: the names stay pairwise distinct under
  every call, and a registered agent and its state-dictionary entry are never
  overwritten.
\<close>

theorem spawn_duplicate_still_enqueued:
  "fst (spawn_agent uav [0, 0, 0] ready_env) = Inr RNone \<and>
   stdout (snd (spawn_agent uav [0, 0, 0] ready_env)) = [AgentNameDuplicate] \<and>
   agents (snd (spawn_agent uav [0, 0, 0] ready_env)) = agents ready_env \<and>
   state_dict (snd (spawn_agent uav [0, 0, 0] ready_env)) = state_dict ready_env \<and>
   command_queue (snd (spawn_agent uav [0, 0, 0] ready_env)) =
     [RGBCameraRateCommand ''uav0'' (PyInt 1), SpawnAgentCommand [0, 0, 0] ''uav0'' ''UavAgent''] \<and>
   command_buffer (last (handoffs
     (snd (tick counting_engine (snd (spawn_agent uav [0, 0, 0] ready_env)))))) =
     [RGBCameraRateCommand ''uav0'' (PyInt 1), SpawnAgentCommand [0, 0, 0] ''uav0'' ''UavAgent'']"
proof -
  have s: "spawn_agent uav [0, 0, 0] ready_env =
      (Inr RNone,
       ready_env\<lparr>stdout := [AgentNameDuplicate],
         command_queue := [RGBCameraRateCommand ''uav0'' (PyInt 1),
                           SpawnAgentCommand [0, 0, 0] ''uav0'' ''UavAgent'']\<rparr>)"
    by (simp add: spawn_agent_def Let_def ok_def enqueue_command_def print_def
          ready_env_fields ready_queue ready_stdout uav_def)
  have i: "initial_reset (snd (spawn_agent uav [0, 0, 0] ready_env))"
    by (simp add: s ready_env_fields)
  show ?thesis
    using tick_handoff[OF i, of counting_engine] by (simp add: s)
qed

end
